theory Spec2Isabelle
  imports Complex_Main
begin

section \<open>JavaScript numbers\<close>

text \<open>
  The program of \<^verbatim>\<open>src/app/page.tsx\<close> computes with JavaScript numbers. A number is
  \<open>NaN\<close>, one of the two infinities, or a finite value. Finite values are kept as
  exact reals: an arithmetic result whose magnitude reaches the overflow threshold of
  the binary64 format becomes an infinity, and the special values propagate as IEEE 754
  prescribes. The rounding of a finite result to 53 significant bits, gradual underflow
  and the sign of zero are not represented.

  An array read past the end and a missing argument are \<open>undefined\<close>, written
  \<open>None\<close> in a \<open>number option\<close>.
\<close>

datatype number = NaN | PInf | NInf | Fin real

definition overflow_threshold :: real where
  "overflow_threshold = 2 ^ 1024 - 2 ^ 970"

definition double :: "real \<Rightarrow> number" where
  "double x = (if overflow_threshold \<le> x then PInf
               else if x \<le> - overflow_threshold then NInf
               else Fin x)"

fun isNaN :: "number \<Rightarrow> bool" where
  "isNaN NaN = True"
| "isNaN _ = False"

fun isFinite :: "number \<Rightarrow> bool" where
  "isFinite (Fin _) = True"
| "isFinite _ = False"

text \<open>\<open>ToNumber\<close> of a value that may be \<open>undefined\<close>.\<close>

fun to_num :: "number option \<Rightarrow> number" where
  "to_num None = NaN"
| "to_num (Some v) = v"

fun is_zero :: "number \<Rightarrow> bool" where
  "is_zero (Fin x) = (x = 0)"
| "is_zero _ = False"

fun is_neg :: "number \<Rightarrow> bool" where
  "is_neg NInf = True"
| "is_neg (Fin x) = (x < 0)"
| "is_neg _ = False"

fun js_neg :: "number \<Rightarrow> number" where
  "js_neg NaN = NaN"
| "js_neg PInf = NInf"
| "js_neg NInf = PInf"
| "js_neg (Fin x) = Fin (- x)"

fun js_add :: "number \<Rightarrow> number \<Rightarrow> number" where
  "js_add NaN _ = NaN"
| "js_add _ NaN = NaN"
| "js_add PInf NInf = NaN"
| "js_add NInf PInf = NaN"
| "js_add PInf _ = PInf"
| "js_add _ PInf = PInf"
| "js_add NInf _ = NInf"
| "js_add _ NInf = NInf"
| "js_add (Fin x) (Fin y) = double (x + y)"

definition js_sub :: "number \<Rightarrow> number \<Rightarrow> number" where
  "js_sub a b = js_add a (js_neg b)"

fun js_mul :: "number \<Rightarrow> number \<Rightarrow> number" where
  "js_mul NaN _ = NaN"
| "js_mul _ NaN = NaN"
| "js_mul (Fin x) (Fin y) = double (x * y)"
| "js_mul a b = (if is_zero a \<or> is_zero b then NaN
                 else if is_neg a = is_neg b then PInf else NInf)"

text \<open>Division; a zero divisor is taken as \<open>+0\<close>.\<close>

fun js_div :: "number \<Rightarrow> number \<Rightarrow> number" where
  "js_div NaN _ = NaN"
| "js_div _ NaN = NaN"
| "js_div (Fin x) (Fin y) =
     (if y = 0 then (if x = 0 then NaN else if 0 < x then PInf else NInf)
      else double (x / y))"
| "js_div (Fin x) _ = Fin 0"
| "js_div a (Fin y) = (if is_neg a = (y < 0) then PInf else NInf)"
| "js_div _ _ = NaN"

fun js_le :: "number \<Rightarrow> number \<Rightarrow> bool" where
  "js_le NaN _ = False"
| "js_le _ NaN = False"
| "js_le NInf _ = True"
| "js_le _ PInf = True"
| "js_le PInf _ = False"
| "js_le _ NInf = False"
| "js_le (Fin x) (Fin y) = (x \<le> y)"

definition js_lt :: "number \<Rightarrow> number \<Rightarrow> bool" where
  "js_lt a b = (js_le a b \<and> a \<noteq> b)"

definition math_max :: "number \<Rightarrow> number \<Rightarrow> number" where
  "math_max a b = (if isNaN a \<or> isNaN b then NaN else if js_le a b then b else a)"

definition math_min :: "number \<Rightarrow> number \<Rightarrow> number" where
  "math_min a b = (if isNaN a \<or> isNaN b then NaN else if js_le a b then a else b)"

text \<open>\<open>Math.round\<close>: the nearest integer, a tie going up.\<close>

fun math_round :: "number \<Rightarrow> number" where
  "math_round (Fin x) = Fin (of_int \<lfloor>x + 1 / 2\<rfloor>)"
| "math_round v = v"

fun math_cos :: "number \<Rightarrow> number" where
  "math_cos (Fin x) = Fin (cos x)"
| "math_cos _ = NaN"

fun math_sin :: "number \<Rightarrow> number" where
  "math_sin (Fin x) = Fin (sin x)"
| "math_sin _ = NaN"

fun math_cbrt :: "number \<Rightarrow> number" where
  "math_cbrt (Fin x) = Fin (root 3 x)"
| "math_cbrt v = v"

fun math_sqrt :: "number \<Rightarrow> number" where
  "math_sqrt (Fin x) = (if x < 0 then NaN else Fin (sqrt x))"
| "math_sqrt PInf = PInf"
| "math_sqrt _ = NaN"

text \<open>
  \<open>Math.pow\<close>, after the case table of \<open>Number::exponentiate\<close>.
\<close>

fun math_pow :: "number \<Rightarrow> number \<Rightarrow> number" where
  "math_pow _ NaN = NaN"
| "math_pow b (Fin e) =
     (if e = 0 then Fin 1
      else case b of
        NaN \<Rightarrow> NaN
      | PInf \<Rightarrow> (if 0 < e then PInf else Fin 0)
      | NInf \<Rightarrow> (if 0 < e then (if e \<in> \<int> \<and> odd \<lfloor>e\<rfloor> then NInf else PInf) else Fin 0)
      | Fin x \<Rightarrow>
          (if x = 0 then (if 0 < e then Fin 0 else PInf)
           else if 0 < x then double (x powr e)
           else if e \<in> \<int> then double (x powi \<lfloor>e\<rfloor>)
           else NaN))"
| "math_pow b PInf =
     (case b of
        NaN \<Rightarrow> NaN
      | Fin x \<Rightarrow> (if 1 < \<bar>x\<bar> then PInf else if \<bar>x\<bar> = 1 then NaN else Fin 0)
      | _ \<Rightarrow> PInf)"
| "math_pow b NInf =
     (case b of
        NaN \<Rightarrow> NaN
      | Fin x \<Rightarrow> (if 1 < \<bar>x\<bar> then Fin 0 else if \<bar>x\<bar> = 1 then NaN else PInf)
      | _ \<Rightarrow> Fin 0)"

text \<open>
  \<open>Math.atan2 y x\<close>: the angle of the point \<open>(x, y)\<close>, in \<open>(-\<pi>, \<pi>]\<close>.
\<close>

definition atan2 :: "real \<Rightarrow> real \<Rightarrow> real" where
  "atan2 y x =
     (if 0 < x then arctan (y / x)
      else if x < 0 then (if 0 \<le> y then arctan (y / x) + pi else arctan (y / x) - pi)
      else if 0 < y then pi / 2
      else if y < 0 then - (pi / 2)
      else 0)"

fun math_atan2 :: "number \<Rightarrow> number \<Rightarrow> number" where
  "math_atan2 NaN _ = NaN"
| "math_atan2 _ NaN = NaN"
| "math_atan2 (Fin y) (Fin x) = Fin (atan2 y x)"
| "math_atan2 (Fin y) PInf = Fin 0"
| "math_atan2 (Fin y) NInf = (if y < 0 then Fin (- pi) else Fin pi)"
| "math_atan2 PInf (Fin x) = Fin (pi / 2)"
| "math_atan2 NInf (Fin x) = Fin (- (pi / 2))"
| "math_atan2 PInf PInf = Fin (pi / 4)"
| "math_atan2 PInf NInf = Fin (3 * pi / 4)"
| "math_atan2 NInf PInf = Fin (- (pi / 4))"
| "math_atan2 NInf NInf = Fin (- (3 * pi / 4))"

definition math_PI :: number where
  "math_PI = Fin pi"

section \<open>JavaScript strings\<close>

text \<open>
  A string is a list of characters; the characters are the code units
  \<open>U+0000\<close> to \<open>U+00FF\<close>. On this range the white space of \<open>trim\<close> and of the
  regular expression class \<open>\s\<close> is tab, line feed, vertical tab, form feed, carriage
  return, space and no-break space, and \<open>toLowerCase\<close> moves the capital letters of
  Basic Latin and of Latin-1 down by 32.
\<close>

definition is_ws :: "char \<Rightarrow> bool" where
  "is_ws c = (c \<in> set [CHR 0x09, CHR 0x0A, CHR 0x0B, CHR 0x0C, CHR 0x0D, CHR 0x20, CHR 0xA0])"

definition trim :: "string \<Rightarrow> string" where
  "trim s = rev (dropWhile is_ws (rev (dropWhile is_ws s)))"

definition lower_char :: "char \<Rightarrow> char" where
  "lower_char c =
     (let n = (of_char c :: nat)
      in if (65 \<le> n \<and> n \<le> 90) \<or> (192 \<le> n \<and> n \<le> 222 \<and> n \<noteq> 215)
         then char_of (n + 32) else c)"

definition toLowerCase :: "string \<Rightarrow> string" where
  "toLowerCase s = map lower_char s"

definition startsWith :: "string \<Rightarrow> string \<Rightarrow> bool" where
  "startsWith s p = (take (length p) s = p)"

text \<open>
  \<open>s.substring(a, b)\<close>: both indices are clamped to the string and swapped when the
  first is the larger.
\<close>

definition substring :: "string \<Rightarrow> int \<Rightarrow> int \<Rightarrow> string" where
  "substring s a b =
     (let n = int (length s);
          a' = min (max a 0) n;
          b' = min (max b 0) n;
          lo = nat (min a' b');
          hi = nat (max a' b')
      in take (hi - lo) (drop lo s))"

text \<open>\<open>s.indexOf(c)\<close> for a single character: \<open>-1\<close> when it does not occur.\<close>

fun indexOf :: "string \<Rightarrow> char \<Rightarrow> int" where
  "indexOf [] c = - 1"
| "indexOf (x # xs) c =
     (if x = c then 0 else (let i = indexOf xs c in if i < 0 then - 1 else i + 1))"

text \<open>\<open>s.split(c)\<close> for a separator of one character.\<close>

fun split_char :: "char \<Rightarrow> string \<Rightarrow> string list" where
  "split_char sep [] = [[]]"
| "split_char sep (c # cs) =
     (if c = sep then [] # split_char sep cs
      else (case split_char sep cs of
              [] \<Rightarrow> [[c]]
            | t # ts \<Rightarrow> (c # t) # ts))"

text \<open>
  \<open>s.split(/\s+/)\<close>: the pieces between maximal runs of white space. The flag records
  that the character before was white space, so that a run closes one piece only.
\<close>

fun split_ws_from :: "bool \<Rightarrow> string \<Rightarrow> string list" where
  "split_ws_from b [] = [[]]"
| "split_ws_from b (c # cs) =
     (if is_ws c then (if b then split_ws_from True cs else [] # split_ws_from True cs)
      else (case split_ws_from False cs of
              [] \<Rightarrow> [[c]]
            | t # ts \<Rightarrow> (c # t) # ts))"

definition split_ws :: "string \<Rightarrow> string list" where
  "split_ws s = split_ws_from False s"

text \<open>\<open>s.padStart(n, c)\<close> for a filler of one character.\<close>

definition padStart :: "nat \<Rightarrow> char \<Rightarrow> string \<Rightarrow> string" where
  "padStart n c s = replicate (n - length s) c @ s"

section \<open>Numbers and strings\<close>

text \<open>The value of a digit in a radix up to 36; \<open>None\<close> for any other character.\<close>

definition digit_value :: "char \<Rightarrow> nat option" where
  "digit_value c =
     (let n = (of_char c :: nat)
      in if 48 \<le> n \<and> n \<le> 57 then Some (n - 48)
         else if 97 \<le> n \<and> n \<le> 122 then Some (n - 87)
         else if 65 \<le> n \<and> n \<le> 90 then Some (n - 55)
         else None)"

definition is_digit_in :: "nat \<Rightarrow> char \<Rightarrow> bool" where
  "is_digit_in radix c = (case digit_value c of None \<Rightarrow> False | Some v \<Rightarrow> v < radix)"

definition digits_value :: "nat \<Rightarrow> string \<Rightarrow> nat" where
  "digits_value radix s = foldl (\<lambda>acc c. acc * radix + (case digit_value c of None \<Rightarrow> 0 | Some v \<Rightarrow> v)) 0 s"

text \<open>The exponent part of a decimal literal, which may be absent; \<open>None\<close> when malformed.\<close>

fun exponent_part :: "string \<Rightarrow> int option" where
  "exponent_part [] = Some 0"
| "exponent_part (c # cs) =
     (if c = CHR ''e'' \<or> c = CHR ''E'' then
        (let neg = (case cs of [] \<Rightarrow> False | d # _ \<Rightarrow> d = CHR ''-'');
             ds = (case cs of [] \<Rightarrow> [] | d # r \<Rightarrow> if d = CHR ''-'' \<or> d = CHR ''+'' then r else cs)
         in if ds \<noteq> [] \<and> list_all (is_digit_in 10) ds
            then Some ((if neg then - 1 else 1) * int (digits_value 10 ds))
            else None)
      else None)"

text \<open>
  An unsigned decimal literal: digits, an optional fraction, an optional exponent, with a
  digit before or after the point. The result is its mathematical value.
\<close>

definition unsigned_decimal :: "string \<Rightarrow> real option" where
  "unsigned_decimal s =
     (let ip = takeWhile (is_digit_in 10) s;
          r1 = dropWhile (is_digit_in 10) s;
          dot = (case r1 of [] \<Rightarrow> False | c # _ \<Rightarrow> c = CHR ''.'');
          fp = (if dot then takeWhile (is_digit_in 10) (tl r1) else []);
          r2 = (if dot then dropWhile (is_digit_in 10) (tl r1) else r1)
      in if ip = [] \<and> fp = [] then None
         else (case exponent_part r2 of
                 None \<Rightarrow> None
               | Some e \<Rightarrow> Some (real (digits_value 10 (ip @ fp)) * 10 powi (e - int (length fp)))))"

text \<open>A literal with a radix prefix: \<open>0x\<close>, \<open>0o\<close> or \<open>0b\<close> and at least one digit.\<close>

definition non_decimal :: "string \<Rightarrow> nat option" where
  "non_decimal s =
     (case s of
        z # p # ds \<Rightarrow>
          (let radix = (if p = CHR ''x'' \<or> p = CHR ''X'' then 16
                        else if p = CHR ''o'' \<or> p = CHR ''O'' then 8
                        else if p = CHR ''b'' \<or> p = CHR ''B'' then 2 else 0)
           in if z = CHR ''0'' \<and> radix \<noteq> 0 \<and> ds \<noteq> [] \<and> list_all (is_digit_in radix) ds
              then Some (digits_value radix ds) else None)
      | _ \<Rightarrow> None)"

text \<open>
  \<open>Number(s)\<close> for a string: white space is trimmed, the empty string is \<open>0\<close>, and a
  string that is no numeric literal is \<open>NaN\<close>.
\<close>

definition Number :: "string \<Rightarrow> number" where
  "Number s =
     (let t = trim s
      in if t = [] then Fin 0
         else (case non_decimal t of
                 Some n \<Rightarrow> double (real n)
               | None \<Rightarrow>
                   (let neg = (hd t = CHR ''-'');
                        u = (if hd t = CHR ''-'' \<or> hd t = CHR ''+'' then tl t else t)
                    in if u = ''Infinity'' then (if neg then NInf else PInf)
                       else (case unsigned_decimal u of
                               None \<Rightarrow> NaN
                             | Some v \<Rightarrow> double (if neg then - v else v)))))"

text \<open>
  \<open>parseInt(s, radix)\<close>: leading white space and a sign are skipped, then a \<open>0x\<close> prefix
  when the radix is 16, and the longest run of digits of the radix is read; with no
  digit the result is \<open>NaN\<close>.
\<close>

definition parseInt :: "string \<Rightarrow> nat \<Rightarrow> number" where
  "parseInt s radix =
     (let s0 = dropWhile is_ws s;
          neg = (case s0 of [] \<Rightarrow> False | c # _ \<Rightarrow> c = CHR ''-'');
          s1 = (case s0 of [] \<Rightarrow> [] | c # r \<Rightarrow> if c = CHR ''-'' \<or> c = CHR ''+'' then r else s0);
          r = (if radix = 0 then 10 else radix);
          pre = (case s1 of z # p # _ \<Rightarrow> z = CHR ''0'' \<and> (p = CHR ''x'' \<or> p = CHR ''X'') | _ \<Rightarrow> False);
          strip = ((radix = 0 \<or> radix = 16) \<and> pre);
          r' = (if strip then 16 else r);
          s2 = (if strip then drop 2 s1 else s1);
          z = takeWhile (is_digit_in r') s2
      in if r' < 2 \<or> 36 < r' then NaN
         else if z = [] then NaN
         else double ((if neg then - 1 else 1) * real (digits_value r' z)))"

text \<open>The digits of a natural number in a radix up to 36, most significant first.\<close>

fun nat_digits :: "nat \<Rightarrow> nat \<Rightarrow> string" where
  "nat_digits radix n =
     (if radix < 2 \<or> n < radix then [''0123456789abcdefghijklmnopqrstuvwxyz'' ! n]
      else nat_digits radix (n div radix) @ [''0123456789abcdefghijklmnopqrstuvwxyz'' ! (n mod radix)])"

definition int_digits :: "nat \<Rightarrow> int \<Rightarrow> string" where
  "int_digits radix i = (if i < 0 then ''-'' @ nat_digits radix (nat (- i)) else nat_digits radix (nat i))"

text \<open>
  The digit string of a finite number that is not an integer below \<open>2 ^ 53\<close> in
  magnitude is the shortest one that reads back as the same binary64 value (in radix 10),
  or is left to the implementation (in any other radix). It is a function of the binary
  representation, which the exact finite values here do not have, and is left
  unspecified.
\<close>

definition fraction_digits :: "nat \<Rightarrow> real \<Rightarrow> string" where
  "fraction_digits = undefined"

text \<open>\<open>x.toString(radix)\<close>; \<open>String(x)\<close> and a template literal use radix 10.\<close>

fun number_toString :: "nat \<Rightarrow> number \<Rightarrow> string" where
  "number_toString radix NaN = ''NaN''"
| "number_toString radix PInf = ''Infinity''"
| "number_toString radix NInf = ''-Infinity''"
| "number_toString radix (Fin x) =
     (if of_int \<lfloor>x\<rfloor> = x \<and> \<bar>x\<bar> < 2 ^ 53 then int_digits radix \<lfloor>x\<rfloor>
      else fraction_digits radix x)"

text \<open>A value inside a template literal: \<open>undefined\<close> prints as its name.\<close>

fun template :: "number option \<Rightarrow> string" where
  "template None = ''undefined''"
| "template (Some v) = number_toString 10 v"

text \<open>
  \<open>x.toFixed(d)\<close>: the decimal expansion with \<open>d\<close> digits after the point of the
  integer nearest to \<open>x * 10 ^ d\<close>, the larger one at a tie, taken on the magnitude and
  signed afterwards. From \<open>10 ^ 21\<close> on the result is that of \<open>String(x)\<close>.
\<close>

fun toFixed :: "nat \<Rightarrow> number \<Rightarrow> string" where
  "toFixed d (Fin x) =
     (if 10 ^ 21 \<le> \<bar>x\<bar> then number_toString 10 (Fin x)
      else
        (let n = nat \<lfloor>\<bar>x\<bar> * 10 ^ d + 1 / 2\<rfloor>;
             m = nat_digits 10 n;
             m' = (if d = 0 then m
                   else (let z = replicate (d + 1 - length m) (CHR ''0'') @ m;
                             k = length z
                         in take (k - d) z @ ''.'' @ drop (k - d) z))
         in (if x < 0 then ''-'' else []) @ m'))"
| "toFixed d v = number_toString 10 v"

section \<open>Helper functions\<close>

text \<open>
  \<open>clamp(value, min, max)\<close> is \<open>Math.max(min, Math.min(value, max))\<close>. Every call in
  the program passes both bounds. The value may be \<open>undefined\<close>.
\<close>

definition clamp :: "number option \<Rightarrow> number \<Rightarrow> number \<Rightarrow> number" where
  "clamp v lo hi = math_max lo (math_min (to_num v) hi)"

definition linearTosRGB :: "number \<Rightarrow> number" where
  "linearTosRGB c0 =
     (let c = clamp (Some c0) (Fin 0) (Fin 1)
      in if js_le c (Fin 0.0031308) then js_mul (Fin 12.92) c
         else js_sub (js_mul (Fin 1.055) (math_pow c (js_div (Fin 1) (Fin 2.4)))) (Fin 0.055))"

definition sRGBtoLinear :: "number \<Rightarrow> number" where
  "sRGBtoLinear c0 =
     (let c = clamp (Some c0) (Fin 0) (Fin 1)
      in if js_le c (Fin 0.04045) then js_div c (Fin 12.92)
         else math_pow (js_div (js_add c (Fin 0.055)) (Fin 1.055)) (Fin 2.4))"

section \<open>Core conversion functions\<close>

definition oklchToRgb :: "number option \<Rightarrow> number option \<Rightarrow> number option \<Rightarrow> number \<times> number \<times> number" where
  "oklchToRgb l c h0 =
     (let h = (case h0 of None \<Rightarrow> Fin 0 | Some v \<Rightarrow> if isNaN v then Fin 0 else v);
          hRad = js_mul h (js_div math_PI (Fin 180));
          lab_l = to_num l;
          lab_a = js_mul (to_num c) (math_cos hRad);
          lab_b = js_mul (to_num c) (math_sin hRad);
          lms_l' = js_add (js_add lab_l (js_mul (Fin 0.3963377774) lab_a)) (js_mul (Fin 0.2158037573) lab_b);
          lms_m' = js_sub (js_sub lab_l (js_mul (Fin 0.1055613458) lab_a)) (js_mul (Fin 0.0638541728) lab_b);
          lms_s' = js_sub (js_sub lab_l (js_mul (Fin 0.0894841775) lab_a)) (js_mul (Fin 1.2914855480) lab_b);
          lms_l = js_mul (js_mul lms_l' lms_l') lms_l';
          lms_m = js_mul (js_mul lms_m' lms_m') lms_m';
          lms_s = js_mul (js_mul lms_s' lms_s') lms_s';
          linear_r = js_add (js_sub (js_mul (Fin 4.0767468522) lms_l) (js_mul (Fin 3.3077115882) lms_m))
                            (js_mul (Fin 0.2309647360) lms_s);
          linear_g = js_sub (js_add (js_mul (js_neg (Fin 1.2684380046)) lms_l) (js_mul (Fin 2.6097574011) lms_m))
                            (js_mul (Fin 0.3413193965) lms_s);
          linear_b = js_add (js_sub (js_mul (js_neg (Fin 0.0041960863)) lms_l) (js_mul (Fin 0.7034186147) lms_m))
                            (js_mul (Fin 1.7076147010) lms_s);
          r_srgb = linearTosRGB linear_r;
          g_srgb = linearTosRGB linear_g;
          b_srgb = linearTosRGB linear_b;
          r = math_round (js_mul r_srgb (Fin 255));
          g = math_round (js_mul g_srgb (Fin 255));
          b = math_round (js_mul b_srgb (Fin 255))
      in (clamp (Some r) (Fin 0) (Fin 255),
          clamp (Some g) (Fin 0) (Fin 255),
          clamp (Some b) (Fin 0) (Fin 255)))"

definition rgbToOklch :: "number option \<Rightarrow> number option \<Rightarrow> number option \<Rightarrow> number \<times> number \<times> number" where
  "rgbToOklch r g b =
     (let r_linear = sRGBtoLinear (js_div (to_num r) (Fin 255));
          g_linear = sRGBtoLinear (js_div (to_num g) (Fin 255));
          b_linear = sRGBtoLinear (js_div (to_num b) (Fin 255));
          lms_l = js_add (js_add (js_mul (Fin 0.4121656120) r_linear) (js_mul (Fin 0.5362752080) g_linear))
                         (js_mul (Fin 0.0514575653) b_linear);
          lms_m = js_add (js_add (js_mul (Fin 0.2118561070) r_linear) (js_mul (Fin 0.6807189584) g_linear))
                         (js_mul (Fin 0.1074065790) b_linear);
          lms_s = js_add (js_add (js_mul (Fin 0.0883097947) r_linear) (js_mul (Fin 0.2818474174) g_linear))
                         (js_mul (Fin 0.6302613616) b_linear);
          lms_l' = math_cbrt lms_l;
          lms_m' = math_cbrt lms_m;
          lms_s' = math_cbrt lms_s;
          lab_l = js_sub (js_add (js_mul (Fin 0.2104542553) lms_l') (js_mul (Fin 0.7936177850) lms_m'))
                         (js_mul (Fin 0.0040720468) lms_s');
          lab_a = js_add (js_sub (js_mul (Fin 1.9779984951) lms_l') (js_mul (Fin 2.4285922050) lms_m'))
                         (js_mul (Fin 0.4505937099) lms_s');
          lab_b = js_sub (js_add (js_mul (Fin 0.0259040371) lms_l') (js_mul (Fin 0.7827717662) lms_m'))
                         (js_mul (Fin 0.8086757660) lms_s');
          c = math_sqrt (js_add (js_mul lab_a lab_a) (js_mul lab_b lab_b));
          h0 = js_mul (math_atan2 lab_b lab_a) (js_div (Fin 180) math_PI);
          h = (if js_lt h0 (Fin 0) then js_add h0 (Fin 360) else h0)
      in (clamp (Some lab_l) (Fin 0) (Fin 1), c, h))"

section \<open>Parsing\<close>

record parse_result =
  format :: string
  "values" :: "number list"

text \<open>
  The three recognisers of \<open>parseColor\<close> work on the trimmed, lower-cased input. Each
  gives \<open>None\<close> where the program falls through to the next test.

  \<open>oklch_tokens\<close> is the token list of lines 146 to 149: the text after \<open>oklch(\<close> less
  the last character, cut at the first \<open>/\<close>, trimmed and split at white space. Reading
  \<open>parts[0]\<close> of an empty array would raise inside the \<open>try\<close> block and fall through.
\<close>

definition oklch_tokens :: "string \<Rightarrow> string list option" where
  "oklch_tokens cleaned =
     (case split_char (CHR ''/'') (substring cleaned 6 (int (length cleaned) - 1)) of
        [] \<Rightarrow> None
      | p # _ \<Rightarrow> Some (split_ws (trim p)))"

definition parse_oklch :: "string \<Rightarrow> parse_result option" where
  "parse_oklch cleaned =
     (case oklch_tokens cleaned of
        None \<Rightarrow> None
      | Some tokens \<Rightarrow>
          (let vs = map Number tokens
           in if length vs = 3 \<and> list_all (\<lambda>v. \<not> isNaN v) vs
              then Some \<lparr>format = ''oklch'', values = vs\<rparr>
              else None))"

text \<open>
  \<open>rgb_tokens\<close> is the token list of lines 161 to 164: the text after the first \<open>(\<close>
  less the last character, split at commas, each piece trimmed.
\<close>

definition rgb_tokens :: "string \<Rightarrow> string list" where
  "rgb_tokens cleaned =
     map trim (split_char (CHR '','')
       (substring cleaned (indexOf cleaned (CHR ''('') + 1) (int (length cleaned) - 1)))"

definition parse_rgb :: "string \<Rightarrow> parse_result option" where
  "parse_rgb cleaned =
     (let vs = map Number (rgb_tokens cleaned)
      in if (length vs = 3 \<or> length vs = 4) \<and> list_all (\<lambda>v. \<not> isNaN v) vs
         then Some \<lparr>format = (if length vs = 4 then ''rgba'' else ''rgb''), values = vs\<rparr>
         else None)"

definition parse_hex :: "string \<Rightarrow> parse_result option" where
  "parse_hex cleaned =
     (let hex0 = substring cleaned 1 (int (length cleaned));
          hex = (if length hex0 = 3
                 then [hex0 ! 0, hex0 ! 0, hex0 ! 1, hex0 ! 1, hex0 ! 2, hex0 ! 2]
                 else hex0)
      in if length hex = 6 then
           (let r = parseInt (substring hex 0 2) 16;
                g = parseInt (substring hex 2 4) 16;
                b = parseInt (substring hex 4 6) 16
            in if \<not> isNaN r \<and> \<not> isNaN g \<and> \<not> isNaN b
               then Some \<lparr>format = ''hex'', values = [r, g, b]\<rparr>
               else None)
         else None)"

definition parseColor :: "string \<Rightarrow> parse_result" where
  "parseColor input =
     (let cleaned = toLowerCase (trim input)
      in case (if startsWith cleaned ''oklch('' then parse_oklch cleaned else None) of
           Some res \<Rightarrow> res
         | None \<Rightarrow>
            (case (if startsWith cleaned ''rgb'' then parse_rgb cleaned else None) of
               Some res \<Rightarrow> res
             | None \<Rightarrow>
                (case (if startsWith cleaned ''#'' then parse_hex cleaned else None) of
                   Some res \<Rightarrow> res
                 | None \<Rightarrow> \<lparr>format = ''unknown'', values = []\<rparr>)))"

section \<open>Conversion\<close>

record conversion =
  entry_format :: string
  entry_value :: string

text \<open>\<open>values[i]\<close>: \<open>undefined\<close> past the end of the array.\<close>

definition element :: "number list \<Rightarrow> nat \<Rightarrow> number option" where
  "element vs i = (if i < length vs then Some (vs ! i) else None)"

text \<open>The two digits of a channel in the hex output: \<open>x.toString(16).padStart(2, "0")\<close>.\<close>

definition hex_byte :: "number \<Rightarrow> string" where
  "hex_byte x = padStart 2 (CHR ''0'') (number_toString 16 x)"

definition oklch_text :: "number \<times> number \<times> number \<Rightarrow> string" where
  "oklch_text t =
     (case t of (l, c, h) \<Rightarrow>
        ''oklch('' @ toFixed 4 l @ '' '' @ toFixed 4 c @ '' '' @ toFixed 2 h @ '')'')"

text \<open>
  \<open>convertColor\<close>. No operation inside its \<open>try\<close> block can raise, so the handler that
  returns the empty array has no branch here.
\<close>

definition convertColor :: "string \<Rightarrow> number list \<Rightarrow> conversion list" where
  "convertColor fmt vs =
     (if vs = [] \<or> list_ex isNaN vs then []
      else if fmt = ''oklch'' then
        (case oklchToRgb (element vs 0) (element vs 1) (element vs 2) of (r, g, b) \<Rightarrow>
           [\<lparr>entry_format = ''rgb'',
             entry_value = ''rgb('' @ template (Some r) @ '', '' @ template (Some g) @ '', ''
                             @ template (Some b) @ '')''\<rparr>,
            \<lparr>entry_format = ''hex'',
             entry_value = ''#'' @ concat (map hex_byte [r, g, b])\<rparr>])
      else if fmt = ''rgb'' \<or> fmt = ''rgba'' then
        (let r_rgb = clamp (element vs 0) (Fin 0) (Fin 255);
             g_rgb = clamp (element vs 1) (Fin 0) (Fin 255);
             b_rgb = clamp (element vs 2) (Fin 0) (Fin 255);
             oklch = rgbToOklch (Some r_rgb) (Some g_rgb) (Some b_rgb)
         in [\<lparr>entry_format = ''oklch'', entry_value = oklch_text oklch\<rparr>,
             \<lparr>entry_format = ''hex'',
              entry_value = ''#'' @ concat (map (\<lambda>x. hex_byte (math_round x)) [r_rgb, g_rgb, b_rgb])\<rparr>])
      else if fmt = ''hex'' then
        (let r_hex = element vs 0;
             g_hex = element vs 1;
             b_hex = element vs 2;
             oklch = rgbToOklch r_hex g_hex b_hex
         in [\<lparr>entry_format = ''oklch'', entry_value = oklch_text oklch\<rparr>,
             \<lparr>entry_format = ''rgb'',
              entry_value = ''rgb('' @ template r_hex @ '', '' @ template g_hex @ '', ''
                              @ template b_hex @ '')''\<rparr>])
      else [])"

text \<open>An integer from 0 to 255.\<close>

definition is_byte :: "number \<Rightarrow> bool" where
  "is_byte v = (case v of Fin x \<Rightarrow> x \<in> \<int> \<and> 0 \<le> x \<and> x \<le> 255 | _ \<Rightarrow> False)"

section \<open>Rounding to binary64\<close>

text \<open>
  The arithmetic above keeps finite results exact. Where the rounding of the program
  decides a property, the result is rounded as binary64 does: to the nearest number with
  a significand of 53 bits, a tie going to the even significand, on the grid of
  \<open>2 powi (- 1074)\<close> below \<open>2 powi (- 1022)\<close>. Overflow is left to \<open>double\<close>.
\<close>

definition binary64 :: "real \<Rightarrow> real" where
  "binary64 x =
     (let e = max \<lfloor>log 2 \<bar>x\<bar>\<rfloor> (- 1022);
          u = 2 powi (e - 52);
          n = x / u;
          f = \<lfloor>n\<rfloor>
      in (if n - of_int f < 1 / 2 \<or> (n - of_int f = 1 / 2 \<and> even f)
          then of_int f else of_int f + 1) * u)"

fun round_number :: "number \<Rightarrow> number" where
  "round_number (Fin x) = Fin (binary64 x)"
| "round_number v = v"

text \<open>
  Lines 126 to 128 of \<open>rgbToOklch\<close>, on the hue that line 125 has computed: a negative
  hue has 360 added, and the sum is rounded as the program rounds it.
\<close>

definition hue_wrap_binary64 :: "number \<Rightarrow> number" where
  "hue_wrap_binary64 h = (if js_lt h (Fin 0) then round_number (js_add h (Fin 360)) else h)"

section \<open>Properties\<close>

subsection \<open>Evaluation and structure\<close>

lemmas str_defs =
  is_ws_def trim_def lower_char_def toLowerCase_def startsWith_def substring_def
  split_ws_def padStart_def char_of_eq_iff

lemmas num_defs =
  digit_value_def is_digit_in_def digits_value_def unsigned_decimal_def non_decimal_def
  Number_def parseInt_def double_def overflow_threshold_def

lemmas parse_defs =
  oklch_tokens_def parse_oklch_def rgb_tokens_def parse_rgb_def parse_hex_def parseColor_def

lemma parse_oklch_Some:
  assumes "parse_oklch c = Some r"
  shows "format r = ''oklch'' \<and> length (values r) = 3 \<and> \<not> list_ex isNaN (values r)"
  using assms
  by (auto simp: parse_oklch_def Let_def list_all_iff list_ex_iff split: option.splits if_splits)

lemma parse_rgb_Some:
  assumes "parse_rgb c = Some r"
  shows "(format r = ''rgb'' \<and> length (values r) = 3 \<or> format r = ''rgba'' \<and> length (values r) = 4)
         \<and> \<not> list_ex isNaN (values r)"
  using assms
  by (auto simp: parse_rgb_def Let_def list_all_iff list_ex_iff split: if_splits)

lemma parse_hex_Some:
  assumes "parse_hex c = Some r"
  shows "format r = ''hex'' \<and> length (values r) = 3 \<and> \<not> list_ex isNaN (values r)"
  using assms
  by (auto simp: parse_hex_def Let_def split: if_splits)

lemma parseColor_cases:
  "parseColor s = \<lparr>format = ''unknown'', values = []\<rparr>
   \<or> parse_oklch (toLowerCase (trim s)) = Some (parseColor s)
   \<or> parse_rgb (toLowerCase (trim s)) = Some (parseColor s)
   \<or> parse_hex (toLowerCase (trim s)) = Some (parseColor s)"
  by (simp add: parseColor_def Let_def split: option.splits)

subsection \<open>Overflow and small values\<close>

lemma threshold_bounds:
  "10 ^ 308 < overflow_threshold" "overflow_threshold \<le> 10 ^ 309"
  by (simp_all add: overflow_threshold_def)

lemma double_finite: "\<bar>x\<bar> \<le> 10 ^ 308 \<Longrightarrow> double x = Fin x"
  using threshold_bounds(1) unfolding double_def by (simp only: abs_le_iff) auto

lemma double_small: "\<bar>x\<bar> < 2 ^ 53 \<Longrightarrow> double x = Fin x"
  by (rule double_finite) simp

lemma double_overflow: "10 ^ 309 \<le> x \<Longrightarrow> double x = PInf"
  using threshold_bounds(2) unfolding double_def by auto

lemma degree_in_radians: "js_div math_PI (Fin 180) = Fin (pi / 180)"
proof -
  have "\<bar>pi / 180\<bar> < 2 ^ 53"
    using pi_gt_zero pi_less_4 by simp
  then show ?thesis
    by (simp add: math_PI_def double_small)
qed

lemmas arith_eval = clamp_def math_max_def math_min_def js_sub_def js_lt_def
  double_small double_finite double_overflow degree_in_radians

subsection \<open>Digits\<close>

lemma less16_cases:
  "(k::nat) < 16 \<Longrightarrow> k \<in> {0, 1, 2, 3, 4, 5, 6, 7, 8, 9, 10, 11, 12, 13, 14, 15}"
  by (simp; arith)

lemma digit_char_value:
  assumes "k < 16"
  shows "digit_value (''0123456789abcdefghijklmnopqrstuvwxyz'' ! k) = Some k"
  using less16_cases [OF assms] by (auto simp: digit_value_def)

lemma digit_char_not_ws:
  assumes "k < 16"
  shows "\<not> is_ws (''0123456789abcdefghijklmnopqrstuvwxyz'' ! k)"
  using less16_cases [OF assms] by (auto simp: is_ws_def)

lemma digit_char_lower:
  assumes "k < 16"
  shows "lower_char (''0123456789abcdefghijklmnopqrstuvwxyz'' ! k) = ''0123456789abcdefghijklmnopqrstuvwxyz'' ! k"
  using less16_cases [OF assms] by (auto simp: lower_char_def)



lemma hex_digit_cases:
  assumes "is_digit_in 16 c"
  shows "c \<in> set ''0123456789abcdefABCDEF''"
proof -
  define n where "n = (of_char c :: nat)"
  have "(48 \<le> n \<and> n \<le> 57) \<or> (97 \<le> n \<and> n \<le> 102) \<or> (65 \<le> n \<and> n \<le> 70)"
    using assms unfolding is_digit_in_def digit_value_def n_def [symmetric] Let_def
    by (auto split: if_splits)
  then have "n \<in> {48, 49, 50, 51, 52, 53, 54, 55, 56, 57, 97, 98, 99, 100, 101, 102, 65, 66, 67, 68, 69, 70}"
    by (simp; arith)
  moreover have "c = char_of n"
    by (simp add: n_def)
  ultimately show ?thesis
    by (elim insertE emptyE; simp add: char_of_eq_iff)
qed

lemma lower_hex_digit:
  assumes "is_digit_in 16 c"
  shows "lower_char c \<in> set ''0123456789abcdef''"
  using hex_digit_cases [OF assms] 
  by (simp only: set_simps) (elim insertE emptyE; simp add: lower_char_def char_of_eq_iff)

lemma floor_nat_half: "\<lfloor>real n + 1 / 2\<rfloor> = int n"
  by linarith

lemma math_round_nat: "math_round (Fin (real n)) = Fin (real n)"
  by (simp add: floor_nat_half)

lemma clamp_byte:
  "n < 256 \<Longrightarrow> clamp (Some (Fin (real n))) (Fin 0) (Fin 255) = Fin (real n)"
  by (simp add: clamp_def math_max_def math_min_def)

lemma nat_digits_byte:
  assumes "n < 256"
  shows "padStart 2 (CHR ''0'') (nat_digits 16 n) =
         [''0123456789abcdefghijklmnopqrstuvwxyz'' ! (n div 16), ''0123456789abcdefghijklmnopqrstuvwxyz'' ! (n mod 16)]"
proof (cases "n < 16")
  case True
  then show ?thesis by (simp add: padStart_def)
next
  case False
  with assms have "n div 16 < 16" by simp
  with False show ?thesis
    by (subst nat_digits.simps) (simp add: padStart_def)
qed

lemma hex_byte_nat:
  assumes "n < 256"
  shows "hex_byte (Fin (real n)) =
         [''0123456789abcdefghijklmnopqrstuvwxyz'' ! (n div 16), ''0123456789abcdefghijklmnopqrstuvwxyz'' ! (n mod 16)]"
proof -
  have "real n < 2 ^ 53" using assms by simp
  then show ?thesis
    using nat_digits_byte [OF assms] by (simp add: hex_byte_def int_digits_def)
qed



lemma parseInt_hex_pair:
  assumes "x < 16" and "y < 16"
  shows "parseInt [''0123456789abcdefghijklmnopqrstuvwxyz'' ! x, ''0123456789abcdefghijklmnopqrstuvwxyz'' ! y] 16
         = Fin (real (16 * x + y))"
proof -
  define a where "a = ''0123456789abcdefghijklmnopqrstuvwxyz'' ! x"
  define b where "b = ''0123456789abcdefghijklmnopqrstuvwxyz'' ! y"
  have vx: "digit_value a = Some x"
    unfolding a_def by (rule digit_char_value [OF assms(1)])
  have vy: "digit_value b = Some y"
    unfolding b_def by (rule digit_char_value [OF assms(2)])
  have wx: "\<not> is_ws a"
    unfolding a_def by (rule digit_char_not_ws [OF assms(1)])
  have "digit_value (CHR ''-'') = None" "digit_value (CHR ''+'') = None"
    by (simp_all add: digit_value_def)
  with vx have sx: "a \<noteq> CHR ''-''" "a \<noteq> CHR ''+''"
    by (metis option.distinct(1))+
  have "digit_value (CHR ''x'') = Some 33" "digit_value (CHR ''X'') = Some 33"
    by (simp_all add: digit_value_def)
  with vy assms have py: "b \<noteq> CHR ''x''" "b \<noteq> CHR ''X''"
    by auto
  have s0: "dropWhile is_ws [a, b] = [a, b]"
    by (simp add: wx)
  have da: "is_digit_in 16 a" and db: "is_digit_in 16 b"
    by (simp_all add: is_digit_in_def vx vy assms)
  have dv: "digits_value 16 [a, b] = 16 * x + y"
    by (simp add: digits_value_def vx vy)
  have "\<bar>16 * real x + real y\<bar> < 2 ^ 53" using assms by simp
  then have d: "double (16 * real x + real y) = Fin (16 * real x + real y)"
    by (rule double_small)
  have "parseInt [a, b] 16 = Fin (real (16 * x + y))"
    unfolding parseInt_def Let_def s0
    by (simp add: sx py da db dv d)
  then show ?thesis by (simp only: a_def b_def)
qed

declare nat_digits.simps [simp del]

lemma ws_no_digit: "is_ws c \<Longrightarrow> digit_value c = None"
  unfolding is_ws_def by (simp only: set_simps) (elim insertE emptyE; simp add: digit_value_def)

lemma digit_not_ws: "is_digit_in r c \<Longrightarrow> \<not> is_ws c"
  using ws_no_digit [of c] by (auto simp: is_digit_in_def)

lemma dec_digit_range:
  "is_digit_in 10 c \<longleftrightarrow> 48 \<le> (of_char c :: nat) \<and> (of_char c :: nat) \<le> 57"
  by (auto simp: is_digit_in_def digit_value_def Let_def)

lemma dec_digit_lower: "is_digit_in 10 c \<Longrightarrow> lower_char c = c"
  by (simp add: dec_digit_range lower_char_def)

lemma dec_digit_char: "k < 10 \<Longrightarrow> is_digit_in 10 (''0123456789abcdefghijklmnopqrstuvwxyz'' ! k)"
  using digit_char_value [of k] by (simp add: is_digit_in_def)

lemma nat_digits_ne: "nat_digits r n \<noteq> []"
  by (subst nat_digits.simps) simp

lemma nat_digits_dec: "list_all (is_digit_in 10) (nat_digits 10 n)"
proof (induction "10::nat" n rule: nat_digits.induct)
  case (1 n)
  show ?case
  proof (cases "n < 10")
    case True
    then show ?thesis by (subst nat_digits.simps) (simp add: dec_digit_char)
  next
    case False
    then have "list_all (is_digit_in 10) (nat_digits 10 (n div 10))"
      using 1 by simp
    moreover have "is_digit_in 10 (''0123456789abcdefghijklmnopqrstuvwxyz'' ! (n mod 10))"
      by (rule dec_digit_char) simp
    ultimately show ?thesis
      using False by (subst nat_digits.simps) simp
  qed
qed

lemma digits_value_snoc:
  "digits_value r (xs @ [c]) = digits_value r xs * r + (case digit_value c of None \<Rightarrow> 0 | Some v \<Rightarrow> v)"
  by (simp add: digits_value_def)

lemma digits_value_nat_digits: "digits_value 10 (nat_digits 10 n) = n"
proof (induction "10::nat" n rule: nat_digits.induct)
  case (1 n)
  show ?case
  proof (cases "n < 10")
    case True
    then have "digit_value (''0123456789abcdefghijklmnopqrstuvwxyz'' ! n) = Some n"
      by (intro digit_char_value) simp
    with True show ?thesis
      by (subst nat_digits.simps) (simp add: digits_value_def)
  next
    case False
    then have ih: "digits_value 10 (nat_digits 10 (n div 10)) = n div 10"
      using 1 by simp
    have "digit_value (''0123456789abcdefghijklmnopqrstuvwxyz'' ! (n mod 10)) = Some (n mod 10)"
      by (intro digit_char_value) simp
    with False ih show ?thesis
      by (subst nat_digits.simps) (simp add: digits_value_snoc)
  qed
qed

lemma trim_id:
  assumes "xs \<noteq> []" and "\<not> is_ws (hd xs)" and "\<not> is_ws (last xs)"
  shows "trim xs = xs"
proof -
  have a: "dropWhile is_ws xs = xs"
    using assms(1,2) by (cases xs) simp_all
  have "dropWhile is_ws (rev xs) = rev xs"
    using assms(1,3) by (cases "rev xs") (simp_all add: last_rev [symmetric] hd_rev)
  with a show ?thesis by (simp add: trim_def)
qed

lemma trim_ws_Cons: "is_ws c \<Longrightarrow> trim (c # xs) = trim xs"
  by (simp add: trim_def)

lemma digits_trim:
  assumes "ds \<noteq> []" and "list_all (is_digit_in 10) ds"
  shows "trim ds = ds"
proof (rule trim_id [OF assms(1)])
  have "hd ds \<in> set ds" "last ds \<in> set ds" using assms(1) by simp_all
  then have "is_digit_in 10 (hd ds)" "is_digit_in 10 (last ds)"
    using assms(2) by (simp_all add: list_all_iff)
  then show "\<not> is_ws (hd ds)" "\<not> is_ws (last ds)"
    by (simp_all add: digit_not_ws)
qed

lemma dec_digit_not_letter:
  assumes "is_digit_in 10 c"
  shows "c \<notin> set ''xXoObB-+I.eE,''"
  using assms unfolding dec_digit_range by auto

lemma non_decimal_digits:
  assumes "list_all (is_digit_in 10) ds"
  shows "non_decimal ds = None"
proof (cases ds)
  case Nil
  then show ?thesis by (simp add: non_decimal_def)
next
  case (Cons z r)
  show ?thesis
  proof (cases r)
    case Nil
    with Cons show ?thesis by (simp add: non_decimal_def)
  next
    case (Cons p ds')
    with assms \<open>ds = z # r\<close> have "is_digit_in 10 p" by simp
    from dec_digit_not_letter [OF this] Cons \<open>ds = z # r\<close>
    show ?thesis by (simp add: non_decimal_def)
  qed
qed

lemma unsigned_decimal_digits:
  assumes "ds \<noteq> []" and "list_all (is_digit_in 10) ds"
  shows "unsigned_decimal ds = Some (real (digits_value 10 ds))"
proof -
  have t: "takeWhile (is_digit_in 10) ds = ds" and d: "dropWhile (is_digit_in 10) ds = []"
    using assms(2) by (simp_all add: list_all_iff)
  show ?thesis
    unfolding unsigned_decimal_def Let_def t d using assms(1) by simp
qed

lemma Number_digits:
  assumes "ds \<noteq> []" and "list_all (is_digit_in 10) ds" and "digits_value 10 ds < 2 ^ 53"
  shows "Number ds = Fin (real (digits_value 10 ds))"
proof -
  have "is_digit_in 10 (hd ds)"
    using assms(1,2) by (cases ds) simp_all
  from dec_digit_not_letter [OF this]
  have sg: "hd ds \<noteq> CHR ''-''" "hd ds \<noteq> CHR ''+''" "hd ds \<noteq> CHR ''I''" by simp_all
  then have inf: "ds \<noteq> ''Infinity''" by auto
  have "\<bar>real (digits_value 10 ds)\<bar> < 2 ^ 53"
    using assms(3) by (metis abs_of_nat of_nat_less_numeral_power_cancel_iff)
  then have dbl: "double (real (digits_value 10 ds)) = Fin (real (digits_value 10 ds))"
    by (rule double_small)
  show ?thesis
    unfolding Number_def Let_def digits_trim [OF assms(1,2)]
    by (simp add: assms(1) non_decimal_digits [OF assms(2)] sg inf
          unsigned_decimal_digits [OF assms(1,2)] dbl)
qed

lemma Number_nat_digits:
  assumes "n < 2 ^ 53"
  shows "Number (nat_digits 10 n) = Fin (real n)"
  using Number_digits [OF nat_digits_ne nat_digits_dec, of n] assms
  by (simp add: digits_value_nat_digits)

lemma template_nat:
  assumes "n < 2 ^ 53"
  shows "template (Some (Fin (real n))) = nat_digits 10 n"
proof -
  have "\<bar>real n\<bar> < 2 ^ 53"
    using assms by (metis abs_of_nat of_nat_less_numeral_power_cancel_iff)
  then show ?thesis by (simp add: int_digits_def)
qed

lemma split_char_no_sep: "sep \<notin> set xs \<Longrightarrow> split_char sep xs = [xs]"
  by (induction xs) auto

lemma split_char_append:
  "sep \<notin> set xs \<Longrightarrow> split_char sep (xs @ sep # ys) = xs # split_char sep ys"
  by (induction xs) auto

lemma substring_middle:
  "substring (p @ m @ [c]) (int (length p)) (int (length (p @ m @ [c])) - 1) = m"
  by (simp add: substring_def Let_def)

subsection \<open>Malformed input\<close>

text \<open>
  The array \<open>parts\<close> of line 146 is never empty, so reading \<open>parts[0]\<close> cannot raise.
\<close>

lemma split_char_not_Nil: "split_char sep s \<noteq> []"
  by (induction s) (auto split: list.splits)

lemma oklch_tokens_defined: "oklch_tokens c \<noteq> None"
  using split_char_not_Nil [of "CHR ''/''" "substring c 6 (int (length c) - 1)"]
  by (auto simp: oklch_tokens_def split: list.splits)


text \<open>
  Claim C9. \<open>parseColor\<close> is total and never raises: every input string gives either the
  unknown result, with no values, or one of the four formats. The malformed inputs
  \<open>not a color\<close>, \<open>oklch(1 2)\<close> (two values) and \<open>rgb(1,2,3,4,5)\<close> (five values) each give
  exactly the unknown result with the empty list of values.
\<close>

theorem parseColor_total:
  "(\<forall>s. parseColor s = \<lparr>format = ''unknown'', values = []\<rparr>
        \<or> format (parseColor s) \<in> {''oklch'', ''rgb'', ''rgba'', ''hex''})
   \<and> parseColor ''not a color'' = \<lparr>format = ''unknown'', values = []\<rparr>
   \<and> parseColor ''oklch(1 2)'' = \<lparr>format = ''unknown'', values = []\<rparr>
   \<and> parseColor ''rgb(1,2,3,4,5)'' = \<lparr>format = ''unknown'', values = []\<rparr>"
proof -
  have range: "parseColor s = \<lparr>format = ''unknown'', values = []\<rparr>
        \<or> format (parseColor s) \<in> {''oklch'', ''rgb'', ''rgba'', ''hex''}" for s
    using parseColor_cases [of s] parse_oklch_Some [of "toLowerCase (trim s)" "parseColor s"]
      parse_rgb_Some [of "toLowerCase (trim s)" "parseColor s"]
      parse_hex_Some [of "toLowerCase (trim s)" "parseColor s"]
    by blast
  have a: "parseColor ''not a color'' = \<lparr>format = ''unknown'', values = []\<rparr>"
    by (simp add: str_defs num_defs parse_defs)
  have b: "parseColor ''oklch(1 2)'' = \<lparr>format = ''unknown'', values = []\<rparr>"
    by (simp add: str_defs num_defs parse_defs)
  have c: "parseColor ''rgb(1,2,3,4,5)'' = \<lparr>format = ''unknown'', values = []\<rparr>"
    by (simp add: str_defs num_defs parse_defs)
  from range a b c show ?thesis by blast
qed

subsection \<open>Hex input\<close>

text \<open>
  Claim C10. Some inputs are accepted as hex although their body is not made of
  hexadecimal digits: each group of two characters is read by \<open>parseInt\<close>, which takes the
  longest leading run of base-16 digits, so \<open>#1g2g3g\<close> parses to format \<open>hex\<close> with the
  values 1, 2, 3 and not to the unknown result.
\<close>

theorem parseColor_hex_prefix_digits:
  "parseColor ''#1g2g3g'' = \<lparr>format = ''hex'', values = [Fin 1, Fin 2, Fin 3]\<rparr>
   \<and> \<not> list_all (is_digit_in 16) ''1g2g3g''"
  by (simp add: str_defs num_defs parse_defs)

lemma not_ws_hash: "\<not> is_ws (CHR ''#'')"
  by (simp add: is_ws_def)

lemma lower_hash: "lower_char (CHR ''#'') = CHR ''#''"
  by (simp add: lower_char_def)

lemma substring_tail: "substring s 1 (int (length s)) = drop 1 s"
  by (cases s) (simp_all add: substring_def Let_def)

lemma parse_hex_None:
  assumes "length cleaned - 1 \<noteq> 3" and "length cleaned - 1 \<noteq> 6"
  shows "parse_hex cleaned = None"
  using assms by (simp add: parse_hex_def substring_tail Let_def)

lemma parseColor_hash:
  "parseColor (CHR ''#'' # xs) =
     (case parse_hex (toLowerCase (trim (CHR ''#'' # xs))) of
        Some res \<Rightarrow> res | None \<Rightarrow> \<lparr>format = ''unknown'', values = []\<rparr>)"
proof -
  have "\<exists>ys. toLowerCase (trim (CHR ''#'' # xs)) = CHR ''#'' # ys"
    by (cases "dropWhile is_ws (rev xs)")
       (auto simp: trim_def toLowerCase_def not_ws_hash lower_hash dropWhile_append)
  then obtain ys where ys: "toLowerCase (trim (CHR ''#'' # xs)) = CHR ''#'' # ys" by blast
  show ?thesis
    by (simp add: parseColor_def ys startsWith_def)
qed

lemma trim_hash_body:
  "\<not> is_ws c \<Longrightarrow> trim (CHR ''#'' # xs @ [c]) = CHR ''#'' # xs @ [c]"
  by (simp add: trim_def not_ws_hash)

lemma shorthand_chars:
  "parseColor [CHR ''#'', a, b, c] = parseColor [CHR ''#'', a, a, b, b, c, c]"
proof (cases "is_ws c")
  case False
  have t1: "trim [CHR ''#'', a, b, c] = [CHR ''#'', a, b, c]"
    using trim_hash_body [of c "[a, b]"] False by simp
  have t2: "trim [CHR ''#'', a, a, b, b, c, c] = [CHR ''#'', a, a, b, b, c, c]"
    using trim_hash_body [of c "[a, a, b, b, c]"] False by simp
  have "parse_hex (toLowerCase [CHR ''#'', a, b, c]) = parse_hex (toLowerCase [CHR ''#'', a, a, b, b, c, c])"
    by (simp add: toLowerCase_def parse_hex_def substring_def Let_def)
  then show ?thesis
    by (simp add: parseColor_hash t1 t2)
next
  case True
  have l1: "length (trim [CHR ''#'', a, b, c]) \<le> 3"
    using True by (simp add: trim_def not_ws_hash)
  have l2: "length (trim [CHR ''#'', a, a, b, b, c, c]) \<in> {1, 3, 5}"
    using True by (simp add: trim_def not_ws_hash)
  have u1: "parse_hex (toLowerCase (trim [CHR ''#'', a, b, c])) = None"
    using l1 by (intro parse_hex_None) (simp_all add: toLowerCase_def)
  have u2: "parse_hex (toLowerCase (trim [CHR ''#'', a, a, b, b, c, c])) = None"
    using l2 by (intro parse_hex_None) (auto simp add: toLowerCase_def)
  show ?thesis
    by (simp add: parseColor_hash u1 u2)
qed

text \<open>
  Claim C8. For every body of three characters, \<open>parseColor\<close> on the shorthand form
  equals \<open>parseColor\<close> on the form of six characters that doubles each of them; in
  particular \<open>#abc\<close> gives the same format and the same values as \<open>#aabbcc\<close>:
  format \<open>hex\<close> with the values 170, 187, 204.
\<close>

theorem shorthand_expansion:
  "(\<forall>a b c. parseColor [CHR ''#'', a, b, c] = parseColor [CHR ''#'', a, a, b, b, c, c])
   \<and> parseColor ''#abc'' = parseColor ''#aabbcc''
   \<and> parseColor ''#abc'' = \<lparr>format = ''hex'', values = [Fin 170, Fin 187, Fin 204]\<rparr>"
proof -
  have "parseColor ''#abc'' = \<lparr>format = ''hex'', values = [Fin 170, Fin 187, Fin 204]\<rparr>"
    by (simp add: str_defs num_defs parse_defs)
  moreover have "parseColor ''#aabbcc'' = \<lparr>format = ''hex'', values = [Fin 170, Fin 187, Fin 204]\<rparr>"
    by (simp add: str_defs num_defs parse_defs)
  ultimately show ?thesis
    using shorthand_chars by simp
qed

lemma convert_rgb_hex:
  assumes "r < 256" and "g < 256" and "b < 256"
  shows "convertColor ''rgb'' [Fin (real r), Fin (real g), Fin (real b)] ! 1 =
         \<lparr>entry_format = ''hex'',
          entry_value = CHR ''#'' # hex_byte (Fin (real r)) @ hex_byte (Fin (real g)) @ hex_byte (Fin (real b))\<rparr>"
  using assms
  by (simp add: convertColor_def element_def Let_def clamp_byte math_round_nat
        del: math_round.simps)

lemma convert_hex_rgb:
  assumes "r < 2 ^ 53" and "g < 2 ^ 53" and "b < 2 ^ 53"
  shows "convertColor ''hex'' [Fin (real r), Fin (real g), Fin (real b)] ! 1 =
         \<lparr>entry_format = ''rgb'',
          entry_value = ''rgb('' @ nat_digits 10 r @ '', '' @ nat_digits 10 g @ '', ''
                          @ nat_digits 10 b @ '')''\<rparr>"
  using template_nat [OF assms(1)] template_nat [OF assms(2)] template_nat [OF assms(3)]
  by (simp add: convertColor_def element_def Let_def del: template.simps)

lemma dec_string_facts:
  assumes "list_all (is_digit_in 10) ds"
  shows "CHR '','' \<notin> set ds" and "map lower_char ds = ds"
proof -
  show "CHR '','' \<notin> set ds"
    using assms dec_digit_not_letter by (fastforce simp: list_all_iff)
  show "map lower_char ds = ds"
    using assms by (intro map_idI) (simp add: list_all_iff dec_digit_lower)
qed

lemma parse_rgb_text:
  assumes "r < 2 ^ 53" and "g < 2 ^ 53" and "b < 2 ^ 53"
  shows "parseColor (''rgb('' @ nat_digits 10 r @ '', '' @ nat_digits 10 g @ '', '' @ nat_digits 10 b @ '')'')
         = \<lparr>format = ''rgb'', values = [Fin (real r), Fin (real g), Fin (real b)]\<rparr>"
proof -
  define R where "R = nat_digits 10 r"
  define G where "G = nat_digits 10 g"
  define B where "B = nat_digits 10 b"
  define S where "S = ''rgb('' @ R @ '', '' @ G @ '', '' @ B @ '')''"
  have dR: "list_all (is_digit_in 10) R" and dG: "list_all (is_digit_in 10) G"
    and dB: "list_all (is_digit_in 10) B"
    by (simp_all add: R_def G_def B_def nat_digits_dec)
  have nR: "R \<noteq> []" and nG: "G \<noteq> []" and nB: "B \<noteq> []"
    by (simp_all add: R_def G_def B_def nat_digits_ne)
  have tr: "trim S = S"
    by (rule trim_id) (simp_all add: S_def is_ws_def)
  have lo: "toLowerCase S = S"
    by (simp add: S_def toLowerCase_def dec_string_facts(2) dR dG dB lower_char_def)
  have S': "S = ''rgb('' @ (R @ '', '' @ G @ '', '' @ B) @ [CHR '')'']"
    by (simp add: S_def)
  have sub: "substring S (indexOf S (CHR ''('') + 1) (int (length S) - 1) = R @ '', '' @ G @ '', '' @ B"
  proof -
    have "indexOf S (CHR ''('') + 1 = int (length ''rgb('')"
      by (simp add: S_def)
    then show ?thesis
      unfolding S' using substring_middle [of "''rgb(''" "R @ '', '' @ G @ '', '' @ B" "CHR '')''"]
      by simp
  qed
  have sp: "split_char (CHR '','') (R @ '', '' @ G @ '', '' @ B) = [R, CHR '' '' # G, CHR '' '' # B]"
  proof -
    have "split_char (CHR '','') (R @ CHR '','' # (CHR '' '' # G) @ CHR '','' # (CHR '' '' # B))
          = R # (CHR '' '' # G) # [CHR '' '' # B]"
      using dec_string_facts(1) [OF dR] dec_string_facts(1) [OF dG] dec_string_facts(1) [OF dB]
      by (simp add: split_char_append split_char_no_sep)
    then show ?thesis by simp
  qed
  have ws: "is_ws (CHR '' '')" by (simp add: is_ws_def)
  have tk: "rgb_tokens S = [R, G, B]"
    unfolding rgb_tokens_def sub sp
    by (simp add: trim_ws_Cons [OF ws] digits_trim nR nG nB dR dG dB)
  have vs: "map Number (rgb_tokens S) = [Fin (real r), Fin (real g), Fin (real b)]"
    unfolding tk using assms by (simp add: R_def G_def B_def Number_nat_digits)
  have pr: "parse_rgb S = Some \<lparr>format = ''rgb'', values = [Fin (real r), Fin (real g), Fin (real b)]\<rparr>"
    unfolding parse_rgb_def Let_def vs by simp
  have "parseColor S = \<lparr>format = ''rgb'', values = [Fin (real r), Fin (real g), Fin (real b)]\<rparr>"
    unfolding parseColor_def Let_def tr lo
    by (simp add: pr) (simp add: S_def startsWith_def)
  then show ?thesis by (simp add: S_def R_def G_def B_def)
qed

lemma hex_digit_lower:
  assumes "is_digit_in 16 c"
  shows "\<exists>k < 16. lower_char c = ''0123456789abcdefghijklmnopqrstuvwxyz'' ! k"
proof -
  let ?D = "''0123456789abcdefghijklmnopqrstuvwxyz''"
  have e: "take 16 ?D = ''0123456789abcdef''"
    by simp
  have "lower_char c \<in> set (take 16 ?D)"
    unfolding e by (rule lower_hex_digit [OF assms])
  then obtain i where i: "i < length (take 16 ?D)" and n: "take 16 ?D ! i = lower_char c"
    unfolding in_set_conv_nth by blast
  from i have "i < 16" by simp
  moreover from this have "take 16 ?D ! i = ?D ! i" by (rule nth_take)
  ultimately show ?thesis using n by metis
qed

lemma byte_div_mod:
  assumes "x < 16" and "y < 16"
  shows "(16 * x + y) div 16 = x" and "(16 * x + y) mod 16 = y" and "16 * x + y < (256::nat)"
  using assms by simp_all

lemma parse_hex6:
  assumes "length ds = 6" and "list_all (is_digit_in 16) ds"
  shows "\<exists>r g b. r < 256 \<and> g < 256 \<and> b < 256
           \<and> parseColor (CHR ''#'' # ds) = \<lparr>format = ''hex'', values = [Fin (real r), Fin (real g), Fin (real b)]\<rparr>
           \<and> hex_byte (Fin (real r)) @ hex_byte (Fin (real g)) @ hex_byte (Fin (real b)) = toLowerCase ds"
proof -
  let ?D = "''0123456789abcdefghijklmnopqrstuvwxyz''"
  from assms(1) obtain d1 d2 d3 d4 d5 d6 where ds: "ds = [d1, d2, d3, d4, d5, d6]"
    by (auto simp: length_Suc_conv eval_nat_numeral)
  have hx: "is_digit_in 16 d1" "is_digit_in 16 d2" "is_digit_in 16 d3"
    "is_digit_in 16 d4" "is_digit_in 16 d5" "is_digit_in 16 d6"
    using assms(2) by (simp_all add: ds)
  obtain x1 where x1: "x1 < 16" "lower_char d1 = ?D ! x1" using hex_digit_lower [OF hx(1)] by blast
  obtain y1 where y1: "y1 < 16" "lower_char d2 = ?D ! y1" using hex_digit_lower [OF hx(2)] by blast
  obtain x2 where x2: "x2 < 16" "lower_char d3 = ?D ! x2" using hex_digit_lower [OF hx(3)] by blast
  obtain y2 where y2: "y2 < 16" "lower_char d4 = ?D ! y2" using hex_digit_lower [OF hx(4)] by blast
  obtain x3 where x3: "x3 < 16" "lower_char d5 = ?D ! x3" using hex_digit_lower [OF hx(5)] by blast
  obtain y3 where y3: "y3 < 16" "lower_char d6 = ?D ! y3" using hex_digit_lower [OF hx(6)] by blast
  define r where "r = 16 * x1 + y1"
  define g where "g = 16 * x2 + y2"
  define b where "b = 16 * x3 + y3"
  have bnd: "r < 256" "g < 256" "b < 256"
    using x1 y1 x2 y2 x3 y3 by (simp_all add: r_def g_def b_def)
  have tr: "trim (CHR ''#'' # ds) = CHR ''#'' # ds"
    using trim_hash_body [of d6 "[d1, d2, d3, d4, d5]"] digit_not_ws [OF hx(6)] by (simp add: ds)
  have lo: "toLowerCase ds = [?D ! x1, ?D ! y1, ?D ! x2, ?D ! y2, ?D ! x3, ?D ! y3]"
    by (simp add: toLowerCase_def ds x1 y1 x2 y2 x3 y3)
  have cl: "toLowerCase (CHR ''#'' # ds) = CHR ''#'' # toLowerCase ds"
    by (simp add: toLowerCase_def lower_hash)
  have p1: "parseInt [?D ! x1, ?D ! y1] 16 = Fin (real r)"
    unfolding r_def by (rule parseInt_hex_pair [OF x1(1) y1(1)])
  have p2: "parseInt [?D ! x2, ?D ! y2] 16 = Fin (real g)"
    unfolding g_def by (rule parseInt_hex_pair [OF x2(1) y2(1)])
  have p3: "parseInt [?D ! x3, ?D ! y3] 16 = Fin (real b)"
    unfolding b_def by (rule parseInt_hex_pair [OF x3(1) y3(1)])
  have ph: "parse_hex (CHR ''#'' # toLowerCase ds)
            = Some \<lparr>format = ''hex'', values = [Fin (real r), Fin (real g), Fin (real b)]\<rparr>"
    unfolding lo by (simp add: parse_hex_def substring_def Let_def p1 p2 p3)
  have pc: "parseColor (CHR ''#'' # ds) = \<lparr>format = ''hex'', values = [Fin (real r), Fin (real g), Fin (real b)]\<rparr>"
    by (simp add: parseColor_hash tr cl ph)
  have hb: "hex_byte (Fin (real r)) @ hex_byte (Fin (real g)) @ hex_byte (Fin (real b)) = toLowerCase ds"
    unfolding lo hex_byte_nat [OF bnd(1)] hex_byte_nat [OF bnd(2)] hex_byte_nat [OF bnd(3)]
    unfolding r_def g_def b_def
    using byte_div_mod [OF x1(1) y1(1)] byte_div_mod [OF x2(1) y2(1)] byte_div_mod [OF x3(1) y3(1)]
    by simp
  show ?thesis
    by (intro exI [of _ r] exI [of _ g] exI [of _ b] conjI bnd pc hb)
qed

text \<open>
  Claim C7. For every string of \<open>#\<close> followed by six hexadecimal digits, in either
  case, \<open>parseColor\<close> gives format \<open>hex\<close> with a triple of bytes, and serialising that
  triple again gives back the six digits in lower case: through the hex entry of the rgb
  branch of \<open>convertColor\<close>, and likewise when the rgb entry that the hex branch prints
  is parsed and converted again.
\<close>

theorem hex_round_trip:
  assumes "length ds = 6" and "list_all (is_digit_in 16) ds"
  shows "format (parseColor (CHR ''#'' # ds)) = ''hex''
    \<and> (\<exists>r g b. r < 256 \<and> g < 256 \<and> b < 256
          \<and> values (parseColor (CHR ''#'' # ds)) = [Fin (real r), Fin (real g), Fin (real b)])
    \<and> convertColor ''rgb'' (values (parseColor (CHR ''#'' # ds))) ! 1
        = \<lparr>entry_format = ''hex'', entry_value = CHR ''#'' # toLowerCase ds\<rparr>
    \<and> entry_format (convertColor ''hex'' (values (parseColor (CHR ''#'' # ds))) ! 1) = ''rgb''
    \<and> (let back = parseColor (entry_value (convertColor ''hex'' (values (parseColor (CHR ''#'' # ds))) ! 1))
       in format back = ''rgb''
          \<and> values back = values (parseColor (CHR ''#'' # ds))
          \<and> convertColor (format back) (values back) ! 1
              = \<lparr>entry_format = ''hex'', entry_value = CHR ''#'' # toLowerCase ds\<rparr>)"
proof -
  from parse_hex6 [OF assms] obtain r g b where
    bnd: "r < 256" "g < 256" "b < 256" and
    pc: "parseColor (CHR ''#'' # ds) = \<lparr>format = ''hex'', values = [Fin (real r), Fin (real g), Fin (real b)]\<rparr>" and
    hb: "hex_byte (Fin (real r)) @ hex_byte (Fin (real g)) @ hex_byte (Fin (real b)) = toLowerCase ds"
    by blast
  have big: "r < 2 ^ 53" "g < 2 ^ 53" "b < 2 ^ 53"
    using bnd by simp_all
  have c1: "convertColor ''rgb'' [Fin (real r), Fin (real g), Fin (real b)] ! 1
        = \<lparr>entry_format = ''hex'', entry_value = CHR ''#'' # toLowerCase ds\<rparr>"
    using convert_rgb_hex [OF bnd] hb by simp
  note c2 = convert_hex_rgb [OF big]
  note c3 = parse_rgb_text [OF big]
  have A: "format (parseColor (CHR ''#'' # ds)) = ''hex''"
    by (simp add: pc)
  have B: "\<exists>r g b. r < 256 \<and> g < 256 \<and> b < 256
          \<and> values (parseColor (CHR ''#'' # ds)) = [Fin (real r), Fin (real g), Fin (real b)]"
    by (intro exI [of _ r] exI [of _ g] exI [of _ b] conjI bnd) (simp add: pc)
  have C: "convertColor ''rgb'' (values (parseColor (CHR ''#'' # ds))) ! 1
        = \<lparr>entry_format = ''hex'', entry_value = CHR ''#'' # toLowerCase ds\<rparr>"
    by (simp only: pc parse_result.simps c1)
  have D: "entry_format (convertColor ''hex'' (values (parseColor (CHR ''#'' # ds))) ! 1) = ''rgb''"
    by (simp only: pc parse_result.simps c2 conversion.simps)
  have E: "(let back = parseColor (entry_value (convertColor ''hex'' (values (parseColor (CHR ''#'' # ds))) ! 1))
       in format back = ''rgb''
          \<and> values back = values (parseColor (CHR ''#'' # ds))
          \<and> convertColor (format back) (values back) ! 1
              = \<lparr>entry_format = ''hex'', entry_value = CHR ''#'' # toLowerCase ds\<rparr>)"
    unfolding Let_def
    by (simp only: pc parse_result.simps c2 conversion.simps c3 c1 simp_thms)
  from A B C D E show ?thesis by (intro conjI)
qed

theorem hex_round_trip_witness:
  "length ''Ff7f50'' = 6 \<and> list_all (is_digit_in 16) ''Ff7f50''
   \<and> format (parseColor ''#Ff7f50'') = ''hex''
   \<and> convertColor ''rgb'' (values (parseColor ''#Ff7f50'')) ! 1
       = \<lparr>entry_format = ''hex'', entry_value = ''#ff7f50''\<rparr>"
proof -
  have h1: "length ''Ff7f50'' = 6" by simp
  have h2: "list_all (is_digit_in 16) ''Ff7f50''"
    by (simp add: is_digit_in_def digit_value_def)
  have l: "toLowerCase ''Ff7f50'' = ''ff7f50''"
    by (simp add: str_defs)
  from hex_round_trip [OF h1 h2] h1 h2 l show ?thesis by simp
qed

subsection \<open>The oklch and rgb recognisers\<close>

lemma starts_oklch_not_others:
  assumes "startsWith c ''oklch(''"
  shows "\<not> startsWith c ''rgb''" and "\<not> startsWith c ''#''"
  using assms by (cases c; simp add: startsWith_def)+

lemma starts_rgb_not_others:
  assumes "startsWith c ''rgb''"
  shows "\<not> startsWith c ''oklch(''" and "\<not> startsWith c ''#''"
  using assms by (cases c; simp add: startsWith_def)+

lemma threshold_le_pow10: "overflow_threshold \<le> 10 ^ 999"
proof -
  have "overflow_threshold \<le> (10::real) ^ 309"
    by (rule threshold_bounds(2))
  also have "\<dots> \<le> 10 ^ 999"
    by (rule power_increasing) simp_all
  finally show ?thesis .
qed

lemma Number_1e999: "Number ''1e999'' = PInf"
proof -
  have u: "unsigned_decimal ''1e999'' = Some (10 ^ 999)"
    by (simp add: unsigned_decimal_def is_digit_in_def digit_value_def digits_value_def
          del: power_numeral)
  have t: "trim ''1e999'' = ''1e999''"
    by (simp add: trim_def is_ws_def)
  have n: "non_decimal ''1e999'' = None"
    by (simp add: non_decimal_def)
  show ?thesis
    unfolding Number_def Let_def t n
    by (simp add: u double_def threshold_le_pow10 del: power_numeral)
qed

lemma parse_oklch_1e999:
  "parseColor ''oklch(1e999 0 0)'' = \<lparr>format = ''oklch'', values = [PInf, Fin 0, Fin 0]\<rparr>"
proof -
  have z: "Number ''0'' = Fin 0"
    by (simp add: str_defs num_defs)
  have tk: "oklch_tokens ''oklch(1e999 0 0)'' = Some [''1e999'', ''0'', ''0'']"
    by (simp add: oklch_tokens_def str_defs)
  have c: "toLowerCase (trim ''oklch(1e999 0 0)'') = ''oklch(1e999 0 0)''"
    by (simp add: str_defs)
  show ?thesis
    unfolding parseColor_def Let_def c
    by (simp add: startsWith_def parse_oklch_def tk z Number_1e999)
qed

text \<open>
  Claim C2 says that an input starting with \<open>oklch(\<close> parses as \<open>oklch\<close> exactly when
  it has three tokens that are all finite numbers, so that an infinite token such as
  \<open>1e999\<close> makes the parse fail. The test of line 152 is \<open>!isNaN(v)\<close>, and infinity
  passes it: \<open>oklch(1e999 0 0)\<close> has the tokens \<open>1e999\<close>, \<open>0\<close>, \<open>0\<close>, the first
  converts to infinity, and the input parses as \<open>oklch\<close> with the values
  \<open>Infinity, 0, 0\<close>.
\<close>

theorem parse_oklch_accepts_infinity:
  "startsWith (toLowerCase (trim ''oklch(1e999 0 0)'')) ''oklch(''
   \<and> oklch_tokens (toLowerCase (trim ''oklch(1e999 0 0)'')) = Some [''1e999'', ''0'', ''0'']
   \<and> Number ''1e999'' = PInf
   \<and> \<not> isFinite (Number ''1e999'')
   \<and> parseColor ''oklch(1e999 0 0)'' = \<lparr>format = ''oklch'', values = [PInf, Fin 0, Fin 0]\<rparr>"
proof -
  have c: "toLowerCase (trim ''oklch(1e999 0 0)'') = ''oklch(1e999 0 0)''"
    by (simp add: str_defs)
  have tk: "oklch_tokens ''oklch(1e999 0 0)'' = Some [''1e999'', ''0'', ''0'']"
    by (simp add: oklch_tokens_def str_defs)
  show ?thesis
    unfolding c by (simp add: tk Number_1e999 parse_oklch_1e999) (simp add: startsWith_def)
qed

text \<open>
  Claim C2, amended. For every input whose trimmed, lower-cased form starts with
  \<open>oklch(\<close>, \<open>parseColor\<close> returns format \<open>oklch\<close> if and only if the payload splits into
  exactly three tokens none of which converts to \<open>NaN\<close>; the values are then the
  converted tokens, and in every other case the result is the unknown result.
\<close>

theorem parse_oklch_iff:
  assumes "startsWith (toLowerCase (trim s)) ''oklch(''"
  shows "(format (parseColor s) = ''oklch'') =
           (\<exists>ts. oklch_tokens (toLowerCase (trim s)) = Some ts \<and> length ts = 3
                 \<and> list_all (\<lambda>t. \<not> isNaN (Number t)) ts)
         \<and> ((\<exists>ts. oklch_tokens (toLowerCase (trim s)) = Some ts
                   \<and> parseColor s = \<lparr>format = ''oklch'', values = map Number ts\<rparr>)
             \<or> parseColor s = \<lparr>format = ''unknown'', values = []\<rparr>)"
  using assms starts_oklch_not_others [OF assms]
  by (auto simp: parseColor_def parse_oklch_def Let_def list_all_iff split: option.splits)

theorem parse_oklch_iff_witness:
  "startsWith (toLowerCase (trim ''  OKLCH( 0.5 0.1 200 )'')) ''oklch(''
   \<and> format (parseColor ''  OKLCH( 0.5 0.1 200 )'') = ''oklch''
   \<and> (\<exists>ts. oklch_tokens (toLowerCase (trim ''  OKLCH( 0.5 0.1 200 )'')) = Some ts
            \<and> length ts = 3 \<and> list_all (\<lambda>t. \<not> isNaN (Number t)) ts)"
proof -
  have h: "startsWith (toLowerCase (trim ''  OKLCH( 0.5 0.1 200 )'')) ''oklch(''"
    by (simp add: str_defs)
  have p: "parseColor ''  OKLCH( 0.5 0.1 200 )''
           = \<lparr>format = ''oklch'', values = [Fin 0.5, Fin 0.1, Fin 200]\<rparr>"
    by (simp add: str_defs num_defs parse_defs power_int_minus)
  from parse_oklch_iff [OF h] h p show ?thesis by simp
qed

text \<open>
  Claim C4 says that an input starting with \<open>rgb\<close> matches only when every token is
  numeric, and that an empty token, as in \<open>rgb(1,2,)\<close>, yields no match. \<open>Number\<close> of
  the empty string is \<open>0\<close>, not \<open>NaN\<close>: \<open>rgb(1,2,)\<close> has the tokens \<open>1\<close>, \<open>2\<close> and the
  empty string, and parses as \<open>rgb\<close> with the values 1, 2, 0.
\<close>

theorem parse_rgb_accepts_empty_token:
  "startsWith (toLowerCase (trim ''rgb(1,2,)'')) ''rgb''
   \<and> rgb_tokens (toLowerCase (trim ''rgb(1,2,)'')) = [''1'', ''2'', []]
   \<and> Number [] = Fin 0
   \<and> parseColor ''rgb(1,2,)'' = \<lparr>format = ''rgb'', values = [Fin 1, Fin 2, Fin 0]\<rparr>"
  by (simp add: str_defs num_defs parse_defs)

text \<open>
  Claim C4, amended. For every input whose trimmed, lower-cased form starts with
  \<open>rgb\<close>, \<open>parseColor\<close> returns format \<open>rgb\<close> exactly when there are three
  comma-separated tokens and \<open>rgba\<close> exactly when there are four, none of them
  converting to \<open>NaN\<close> (an empty or blank token converts to \<open>0\<close>); the values are
  then the converted tokens, and in every other case the result is the unknown result.
\<close>

theorem parse_rgb_iff:
  assumes "startsWith (toLowerCase (trim s)) ''rgb''"
  shows "(format (parseColor s) = ''rgb'') =
           (length (rgb_tokens (toLowerCase (trim s))) = 3
            \<and> list_all (\<lambda>t. \<not> isNaN (Number t)) (rgb_tokens (toLowerCase (trim s))))
         \<and> (format (parseColor s) = ''rgba'') =
           (length (rgb_tokens (toLowerCase (trim s))) = 4
            \<and> list_all (\<lambda>t. \<not> isNaN (Number t)) (rgb_tokens (toLowerCase (trim s))))
         \<and> ((format (parseColor s) = ''rgb'' \<or> format (parseColor s) = ''rgba'')
               \<and> values (parseColor s) = map Number (rgb_tokens (toLowerCase (trim s)))
             \<or> parseColor s = \<lparr>format = ''unknown'', values = []\<rparr>)"
  using assms starts_rgb_not_others [OF assms]
  by (auto simp: parseColor_def parse_rgb_def Let_def list_all_iff split: option.splits)

theorem parse_rgb_iff_witness:
  "startsWith (toLowerCase (trim ''rgba(1, 2, 3, 0.5)'')) ''rgb''
   \<and> format (parseColor ''rgba(1, 2, 3, 0.5)'') = ''rgba''
   \<and> length (rgb_tokens (toLowerCase (trim ''rgba(1, 2, 3, 0.5)''))) = 4
   \<and> list_all (\<lambda>t. \<not> isNaN (Number t)) (rgb_tokens (toLowerCase (trim ''rgba(1, 2, 3, 0.5)'')))
   \<and> values (parseColor ''rgba(1, 2, 3, 0.5)'') = [Fin 1, Fin 2, Fin 3, Fin 0.5]"
proof -
  have h: "startsWith (toLowerCase (trim ''rgba(1, 2, 3, 0.5)'')) ''rgb''"
    by (simp add: str_defs)
  have p: "parseColor ''rgba(1, 2, 3, 0.5)''
           = \<lparr>format = ''rgba'', values = [Fin 1, Fin 2, Fin 3, Fin 0.5]\<rparr>"
    by (simp add: str_defs num_defs parse_defs power_int_minus)
  from parse_rgb_iff [OF h] h p show ?thesis by simp
qed

subsection \<open>Conversion\<close>

lemma convert_formats_oklch:
  "vs \<noteq> [] \<Longrightarrow> \<not> list_ex isNaN vs \<Longrightarrow>
   map entry_format (convertColor ''oklch'' vs) = [''rgb'', ''hex'']"
  by (simp add: convertColor_def split: prod.splits)

lemma convert_formats_rgb:
  "vs \<noteq> [] \<Longrightarrow> \<not> list_ex isNaN vs \<Longrightarrow> fmt = ''rgb'' \<or> fmt = ''rgba'' \<Longrightarrow>
   map entry_format (convertColor fmt vs) = [''oklch'', ''hex'']"
  by (auto simp add: convertColor_def Let_def)

lemma convert_formats_hex:
  "vs \<noteq> [] \<Longrightarrow> \<not> list_ex isNaN vs \<Longrightarrow>
   map entry_format (convertColor ''hex'' vs) = [''oklch'', ''rgb'']"
  by (simp add: convertColor_def Let_def)

text \<open>
  Claim C1. For every successfully parsed input, \<open>convertColor\<close> returns exactly the
  formats other than the source, in a fixed order: \<open>rgb, hex\<close> for format \<open>oklch\<close> (which
  has three values), \<open>oklch, hex\<close> for \<open>rgb\<close> and \<open>rgba\<close>, \<open>oklch, rgb\<close> for \<open>hex\<close>; the
  format of the input is never among the entries.
\<close>

theorem convertColor_formats:
  assumes "format (parseColor s) \<noteq> ''unknown''"
  shows "(format (parseColor s) = ''oklch'' \<and> length (values (parseColor s)) = 3
            \<and> map entry_format (convertColor ''oklch'' (values (parseColor s))) = [''rgb'', ''hex'']
          \<or> (format (parseColor s) = ''rgb'' \<or> format (parseColor s) = ''rgba'')
            \<and> map entry_format (convertColor (format (parseColor s)) (values (parseColor s)))
                = [''oklch'', ''hex'']
          \<or> format (parseColor s) = ''hex''
            \<and> map entry_format (convertColor ''hex'' (values (parseColor s))) = [''oklch'', ''rgb''])
         \<and> format (parseColor s)
             \<notin> set (map entry_format (convertColor (format (parseColor s)) (values (parseColor s))))"
proof -
  let ?p = "parseColor s"
  let ?c = "toLowerCase (trim s)"
  from assms parseColor_cases [of s]
  consider (oklch) "parse_oklch ?c = Some ?p" | (rgb) "parse_rgb ?c = Some ?p"
    | (hex) "parse_hex ?c = Some ?p"
    by auto
  then show ?thesis
  proof cases
    case oklch
    from parse_oklch_Some [OF this]
    have f: "format ?p = ''oklch''" and l: "length (values ?p) = 3"
      and n: "\<not> list_ex isNaN (values ?p)" by simp_all
    from l have "values ?p \<noteq> []" by auto
    from convert_formats_oklch [OF this n] f l show ?thesis by simp
  next
    case rgb
    from parse_rgb_Some [OF this]
    have f: "format ?p = ''rgb'' \<or> format ?p = ''rgba''"
      and l: "length (values ?p) = 3 \<or> length (values ?p) = 4"
      and n: "\<not> list_ex isNaN (values ?p)" by auto
    from l have "values ?p \<noteq> []" by auto
    from convert_formats_rgb [OF this n f] f show ?thesis by auto
  next
    case hex
    from parse_hex_Some [OF this]
    have f: "format ?p = ''hex''" and l: "length (values ?p) = 3"
      and n: "\<not> list_ex isNaN (values ?p)" by simp_all
    from l have "values ?p \<noteq> []" by auto
    from convert_formats_hex [OF this n] f show ?thesis by simp
  qed
qed

lemma parse_examples:
  "parseColor ''oklch(0.627 0.277 27.23)''
     = \<lparr>format = ''oklch'', values = [Fin 0.627, Fin 0.277, Fin 27.23]\<rparr>"
  "parseColor ''rgb(255, 127, 80)'' = \<lparr>format = ''rgb'', values = [Fin 255, Fin 127, Fin 80]\<rparr>"
  "parseColor ''rgba(1,2,3,0.5)'' = \<lparr>format = ''rgba'', values = [Fin 1, Fin 2, Fin 3, Fin 0.5]\<rparr>"
  "parseColor ''#800080'' = \<lparr>format = ''hex'', values = [Fin 128, Fin 0, Fin 128]\<rparr>"
  by (simp_all add: str_defs num_defs parse_defs power_int_minus Let_def)

theorem convertColor_formats_witness:
  "format (parseColor ''oklch(0.627 0.277 27.23)'') \<noteq> ''unknown''
   \<and> map entry_format (convertColor ''oklch'' (values (parseColor ''oklch(0.627 0.277 27.23)'')))
       = [''rgb'', ''hex'']
   \<and> format (parseColor ''rgb(255, 127, 80)'') \<noteq> ''unknown''
   \<and> map entry_format (convertColor ''rgb'' (values (parseColor ''rgb(255, 127, 80)'')))
       = [''oklch'', ''hex'']
   \<and> format (parseColor ''rgba(1,2,3,0.5)'') \<noteq> ''unknown''
   \<and> map entry_format (convertColor ''rgba'' (values (parseColor ''rgba(1,2,3,0.5)'')))
       = [''oklch'', ''hex'']
   \<and> format (parseColor ''#800080'') \<noteq> ''unknown''
   \<and> map entry_format (convertColor ''hex'' (values (parseColor ''#800080'')))
       = [''oklch'', ''rgb'']"
  using convertColor_formats [of "''oklch(0.627 0.277 27.23)''"]
    convertColor_formats [of "''rgb(255, 127, 80)''"]
    convertColor_formats [of "''rgba(1,2,3,0.5)''"]
    convertColor_formats [of "''#800080''"]
  by (simp add: parse_examples)

lemma linearTosRGB_NaN: "linearTosRGB NaN = NaN"
  by (simp add: linearTosRGB_def arith_eval)

lemma oklchToRgb_overflow:
  assumes "js_add (js_add v (Fin 0)) (Fin 0) = v"
    and "js_sub (js_sub v (Fin 0)) (Fin 0) = v"
    and "js_mul (js_mul v v) v = PInf"
  shows "oklchToRgb (Some v) (Some (Fin 0)) (Some (Fin 0)) = (NaN, NaN, NaN)"
proof -
  have z: "js_mul (Fin 0) (math_cos (js_mul (Fin 0) (js_div math_PI (Fin 180)))) = Fin 0"
    "js_mul (Fin 0) (math_sin (js_mul (Fin 0) (js_div math_PI (Fin 180)))) = Fin 0"
    by (simp_all add: degree_in_radians double_small)
  have d0: "double 0 = Fin 0"
    by (simp add: double_small)
  show ?thesis
    unfolding oklchToRgb_def Let_def
    by (simp add: z d0 assms js_sub_def
          linearTosRGB_NaN clamp_def math_max_def math_min_def)
qed

lemma oklchToRgb_PInf:
  "oklchToRgb (Some PInf) (Some (Fin 0)) (Some (Fin 0)) = (NaN, NaN, NaN)"
  by (rule oklchToRgb_overflow) (simp_all add: js_sub_def)

lemma oklchToRgb_huge:
  "oklchToRgb (Some (Fin (10 ^ 200))) (Some (Fin 0)) (Some (Fin 0)) = (NaN, NaN, NaN)"
proof (rule oklchToRgb_overflow)
  show "js_add (js_add (Fin (10 ^ 200)) (Fin 0)) (Fin 0) = Fin (10 ^ 200)"
    by (simp add: double_finite)
  show "js_sub (js_sub (Fin (10 ^ 200)) (Fin 0)) (Fin 0) = Fin (10 ^ 200)"
    by (simp add: double_finite js_sub_def)
  show "js_mul (js_mul (Fin (10 ^ 200)) (Fin (10 ^ 200))) (Fin (10 ^ 200)) = PInf"
    by (simp add: double_overflow)
qed

lemma convert_PInf:
  "convertColor ''oklch'' [PInf, Fin 0, Fin 0] =
     [\<lparr>entry_format = ''rgb'', entry_value = ''rgb(NaN, NaN, NaN)''\<rparr>,
      \<lparr>entry_format = ''hex'', entry_value = ''#NaNNaNNaN''\<rparr>]"
  by (simp add: convertColor_def element_def oklchToRgb_PInf hex_byte_def padStart_def)

text \<open>
  Claim C3 says that \<open>convertColor\<close> returns the empty sequence also when a value is
  infinite, and names \<open>convertColor("oklch", [Infinity, 0, 0])\<close>. The guard of line 240
  tests \<open>isNaN\<close> only: for these arguments the oklch branch runs, the cubes are infinite,
  the matrix rows subtract infinity from infinity, and two entries come back, printed
  from \<open>NaN\<close> channels.
\<close>

theorem convertColor_infinite_not_empty:
  "\<not> isFinite PInf
   \<and> convertColor ''oklch'' [PInf, Fin 0, Fin 0] =
     [\<lparr>entry_format = ''rgb'', entry_value = ''rgb(NaN, NaN, NaN)''\<rparr>,
      \<lparr>entry_format = ''hex'', entry_value = ''#NaNNaNNaN''\<rparr>]
   \<and> convertColor ''oklch'' [PInf, Fin 0, Fin 0] \<noteq> []"
  by (simp add: convert_PInf)

text \<open>
  Claim C3, amended. \<open>convertColor\<close> returns the empty sequence whenever the tag is not
  one of \<open>oklch\<close>, \<open>rgb\<close>, \<open>rgba\<close>, \<open>hex\<close>, or the values sequence is empty, or
  some value is \<open>NaN\<close>.
\<close>

theorem convertColor_empty:
  assumes "fmt \<notin> {''oklch'', ''rgb'', ''rgba'', ''hex''} \<or> vs = [] \<or> list_ex isNaN vs"
  shows "convertColor fmt vs = []"
  using assms by (auto simp add: convertColor_def)

theorem convertColor_empty_witness:
  "''cmyk'' \<notin> {''oklch'', ''rgb'', ''rgba'', ''hex''}
   \<and> convertColor ''cmyk'' [Fin 1, Fin 2, Fin 3] = []
   \<and> convertColor ''rgb'' [] = []
   \<and> list_ex isNaN [Fin 1, NaN, Fin 0]
   \<and> convertColor ''oklch'' [Fin 1, NaN, Fin 0] = []"
  using convertColor_empty [of "''cmyk''" "[Fin 1, Fin 2, Fin 3]"]
    convertColor_empty [of "''rgb''" "[]"]
    convertColor_empty [of "''oklch''" "[Fin 1, NaN, Fin 0]"]
  by simp

text \<open>
  Whatever the arguments, each channel that \<open>oklchToRgb\<close> returns is \<open>NaN\<close> or an
  integer from 0 to 255: the final \<open>clamp\<close> bounds every number except \<open>NaN\<close>.
\<close>

lemma clamp_round_byte:
  "isNaN (clamp (Some (math_round v)) (Fin 0) (Fin 255))
   \<or> is_byte (clamp (Some (math_round v)) (Fin 0) (Fin 255))"
  by (cases v) (auto simp: clamp_def math_max_def math_min_def is_byte_def)

lemma oklchToRgb_shape:
  "\<exists>x y z. oklchToRgb l c h =
     (clamp (Some (math_round x)) (Fin 0) (Fin 255),
      clamp (Some (math_round y)) (Fin 0) (Fin 255),
      clamp (Some (math_round z)) (Fin 0) (Fin 255))"
  unfolding oklchToRgb_def Let_def
  by (intro exI) (rule refl)

lemma oklchToRgb_channels:
  assumes "oklchToRgb l c h = (r, g, b)"
  shows "(isNaN r \<or> is_byte r) \<and> (isNaN g \<or> is_byte g) \<and> (isNaN b \<or> is_byte b)"
proof -
  from oklchToRgb_shape [of l c h] obtain x y z where
    "oklchToRgb l c h =
     (clamp (Some (math_round x)) (Fin 0) (Fin 255),
      clamp (Some (math_round y)) (Fin 0) (Fin 255),
      clamp (Some (math_round z)) (Fin 0) (Fin 255))"
    by blast
  with assms have "r = clamp (Some (math_round x)) (Fin 0) (Fin 255)"
    "g = clamp (Some (math_round y)) (Fin 0) (Fin 255)"
    "b = clamp (Some (math_round z)) (Fin 0) (Fin 255)"
    by simp_all
  then show ?thesis
    using clamp_round_byte [of x] clamp_round_byte [of y] clamp_round_byte [of z] by simp
qed

text \<open>
  Claim C5. For all finite inputs \<open>oklchToRgb\<close> is to return three integers in
  \<open>[0, 255]\<close>, and the comment of line 90 says that the final clamp ensures it. At
  the finite lightness \<open>1e200\<close> the cubes of lines 71 to 73 overflow to infinity, the
  rows of lines 76 to 78 subtract infinity from infinity, and \<open>linearTosRGB\<close>,
  \<open>Math.round\<close> and \<open>clamp\<close> pass the resulting \<open>NaN\<close> through: all three channels
  are \<open>NaN\<close>. The input is reached from the text \<open>oklch(1e200 0 0)\<close>, for which
  \<open>convertColor\<close> prints \<open>rgb(NaN, NaN, NaN)\<close> and \<open>#NaNNaNNaN\<close>.
\<close>

theorem oklchToRgb_overflow_NaN:
  "isFinite (Fin (10 ^ 200))
   \<and> oklchToRgb (Some (Fin (10 ^ 200))) (Some (Fin 0)) (Some (Fin 0)) = (NaN, NaN, NaN)
   \<and> parseColor ''oklch(1e200 0 0)''
       = \<lparr>format = ''oklch'', values = [Fin (10 ^ 200), Fin 0, Fin 0]\<rparr>
   \<and> convertColor ''oklch'' [Fin (10 ^ 200), Fin 0, Fin 0] =
       [\<lparr>entry_format = ''rgb'', entry_value = ''rgb(NaN, NaN, NaN)''\<rparr>,
        \<lparr>entry_format = ''hex'', entry_value = ''#NaNNaNNaN''\<rparr>]"
proof -
  have p: "parseColor ''oklch(1e200 0 0)''
       = \<lparr>format = ''oklch'', values = [Fin (10 ^ 200), Fin 0, Fin 0]\<rparr>"
    by (simp add: str_defs num_defs parse_defs)
  have c: "convertColor ''oklch'' [Fin (10 ^ 200), Fin 0, Fin 0] =
       [\<lparr>entry_format = ''rgb'', entry_value = ''rgb(NaN, NaN, NaN)''\<rparr>,
        \<lparr>entry_format = ''hex'', entry_value = ''#NaNNaNNaN''\<rparr>]"
    unfolding convertColor_def
    by (simp add: element_def oklchToRgb_huge hex_byte_def padStart_def del: power_numeral)
  from p c oklchToRgb_huge show ?thesis by simp
qed

subsection \<open>The hue in exact arithmetic\<close>

lemma clamp_unit:
  assumes "\<not> isNaN v"
  shows "\<exists>c. clamp (Some v) (Fin 0) (Fin 1) = Fin c \<and> 0 \<le> c \<and> c \<le> 1"
  using assms by (cases v) (auto simp: clamp_def math_max_def math_min_def)

lemma sRGBtoLinear_unit:
  assumes "\<not> isNaN v"
  shows "\<exists>x. sRGBtoLinear v = Fin x \<and> 0 \<le> x \<and> x \<le> 1"
proof -
  from clamp_unit [OF assms] obtain c where
    c: "clamp (Some v) (Fin 0) (Fin 1) = Fin c" "0 \<le> c" "c \<le> 1" by blast
  show ?thesis
  proof (cases "c \<le> 0.04045")
    case True
    have "\<bar>c / 12.92\<bar> < 2 ^ 53" using c by simp
    then have "double (c / 12.92) = Fin (c / 12.92)" by (rule double_small)
    then have "sRGBtoLinear v = Fin (c / 12.92)"
      using True by (simp add: sRGBtoLinear_def c)
    moreover have "0 \<le> c / 12.92" "c / 12.92 \<le> 1" using c by simp_all
    ultimately show ?thesis by blast
  next
    case False
    define t where "t = (c + 0.055) / 1.055"
    have t: "0 < t" "t \<le> 1" using c False by (simp_all add: t_def)
    have le: "js_le (Fin c) (Fin 0.04045) = False"
      using False by simp
    have d1: "js_add (Fin c) (Fin 0.055) = Fin (c + 0.055)"
      using c by (simp add: double_small)
    have d2: "js_div (Fin (c + 0.055)) (Fin 1.055) = Fin t"
      using t by (simp add: double_small t_def)
    have p: "0 \<le> t powr 2.4" "t powr 2.4 \<le> 1"
      using t by (simp_all add: powr_le1)
    then have "\<bar>t powr 2.4\<bar> < 2 ^ 53" by simp
    then have "double (t powr 2.4) = Fin (t powr 2.4)" by (rule double_small)
    then have d3: "math_pow (Fin t) (Fin 2.4) = Fin (t powr 2.4)"
      using t by simp
    have "sRGBtoLinear v = Fin (t powr 2.4)"
      by (simp only: sRGBtoLinear_def Let_def c le if_False d1 d2 d3)
    with p show ?thesis by blast
  qed
qed

lemma js_div_255_not_NaN: "\<not> isNaN v \<Longrightarrow> \<not> isNaN (js_div v (Fin 255))"
  by (cases v) (simp_all add: double_def)

lemma atan2_range: "- pi < atan2 y x \<and> atan2 y x \<le> pi"
proof -
  have b: "- (pi / 2) < arctan (y / x)" "arctan (y / x) < pi / 2"
    by (rule arctan_lbound, rule arctan_ubound)
  consider "0 < x" | "x < 0" "0 \<le> y" | "x < 0" "y < 0" | "x = 0"
    by linarith
  then show ?thesis
  proof cases
    case 1
    then have eq: "atan2 y x = arctan (y / x)" by (simp add: atan2_def)
    show ?thesis unfolding eq using b pi_gt_zero by linarith
  next
    case 2
    then have "y / x \<le> 0" by (simp add: divide_nonneg_neg)
    then have n: "arctan (y / x) \<le> 0" by (simp add: arctan_le_zero_iff)
    from 2 have eq: "atan2 y x = arctan (y / x) + pi" by (simp add: atan2_def)
    show ?thesis unfolding eq using b n pi_gt_zero by linarith
  next
    case 3
    then have "0 < y / x" by (simp add: divide_neg_neg)
    then have n: "0 < arctan (y / x)" by (simp add: zero_less_arctan_iff)
    from 3 have eq: "atan2 y x = arctan (y / x) - pi" by (simp add: atan2_def)
    show ?thesis unfolding eq using b n pi_gt_zero by linarith
  next
    case 4
    then have "atan2 y x = pi / 2 \<or> atan2 y x = - (pi / 2) \<or> atan2 y x = 0"
      by (simp add: atan2_def)
    then show ?thesis using pi_gt_zero by linarith
  qed
qed

lemma scaled_small:
  assumes "\<bar>x\<bar> \<le> 2" and "\<bar>a\<bar> \<le> 3"
  shows "js_mul (Fin a) (Fin x) = Fin (a * x)" and "\<bar>a * x\<bar> \<le> 6"
proof -
  have "\<bar>a * x\<bar> \<le> 3 * 2"
    unfolding abs_mult using assms by (intro mult_mono) simp_all
  then show "\<bar>a * x\<bar> \<le> 6" by simp
  then have "\<bar>a * x\<bar> < 2 ^ 53" by simp
  then show "js_mul (Fin a) (Fin x) = Fin (a * x)"
    by (simp add: double_small)
qed

lemma comb_add_add:
  assumes "\<bar>x\<bar> \<le> 2" "\<bar>y\<bar> \<le> 2" "\<bar>z\<bar> \<le> 2" "\<bar>a\<bar> \<le> 3" "\<bar>b\<bar> \<le> 3" "\<bar>c\<bar> \<le> 3"
  shows "js_add (js_add (js_mul (Fin a) (Fin x)) (js_mul (Fin b) (Fin y))) (js_mul (Fin c) (Fin z))
         = Fin (a * x + b * y + c * z)"
  using scaled_small [OF assms(1,4)] scaled_small [OF assms(2,5)] scaled_small [OF assms(3,6)]
  by (simp add: double_small)

lemma comb_add_sub:
  assumes "\<bar>x\<bar> \<le> 2" "\<bar>y\<bar> \<le> 2" "\<bar>z\<bar> \<le> 2" "\<bar>a\<bar> \<le> 3" "\<bar>b\<bar> \<le> 3" "\<bar>c\<bar> \<le> 3"
  shows "js_sub (js_add (js_mul (Fin a) (Fin x)) (js_mul (Fin b) (Fin y))) (js_mul (Fin c) (Fin z))
         = Fin (a * x + b * y - c * z)"
  using scaled_small [OF assms(1,4)] scaled_small [OF assms(2,5)] scaled_small [OF assms(3,6)]
  by (simp add: double_small js_sub_def)

lemma comb_sub_add:
  assumes "\<bar>x\<bar> \<le> 2" "\<bar>y\<bar> \<le> 2" "\<bar>z\<bar> \<le> 2" "\<bar>a\<bar> \<le> 3" "\<bar>b\<bar> \<le> 3" "\<bar>c\<bar> \<le> 3"
  shows "js_add (js_sub (js_mul (Fin a) (Fin x)) (js_mul (Fin b) (Fin y))) (js_mul (Fin c) (Fin z))
         = Fin (a * x - b * y + c * z)"
  using scaled_small [OF assms(1,4)] scaled_small [OF assms(2,5)] scaled_small [OF assms(3,6)]
  by (simp add: double_small js_sub_def)

lemma cbrt_small:
  assumes "0 \<le> x" and "x \<le> 8"
  shows "0 \<le> root 3 x" and "root 3 x \<le> 2"
proof -
  show "0 \<le> root 3 x" using assms(1) by simp
  have "root 3 ((2::real) ^ 3) = 2"
    by (rule real_root_power_cancel) simp_all
  then have r8: "root 3 (8::real) = 2" by simp
  have "root 3 x \<le> root 3 8"
    by (rule real_root_le_mono) (use assms(2) in simp_all)
  then show "root 3 x \<le> 2" unfolding r8 .
qed

lemma hue_normalised:
  assumes "- pi < t" and "t \<le> pi"
  shows "\<exists>h. (if js_lt (js_mul (Fin t) (js_div (Fin 180) math_PI)) (Fin 0)
               then js_add (js_mul (Fin t) (js_div (Fin 180) math_PI)) (Fin 360)
               else js_mul (Fin t) (js_div (Fin 180) math_PI)) = Fin h \<and> 0 \<le> h \<and> h < 360"
proof -
  have p2: "2 \<le> pi" by (rule pi_ge_two)
  then have "180 / pi \<le> 180 / 2"
    by (intro divide_left_mono) simp_all
  then have "\<bar>180 / pi\<bar> < 2 ^ 53"
    by simp
  then have k: "js_div (Fin 180) math_PI = Fin (180 / pi)"
    using pi_gt_zero by (simp add: math_PI_def double_small)
  define d where "d = t * (180 / pi)"
  have d: "- 180 < d" "d \<le> 180"
    using assms pi_gt_zero by (simp_all add: d_def field_simps)
  then have "\<bar>d\<bar> < 2 ^ 53" by simp
  then have m: "js_mul (Fin t) (Fin (180 / pi)) = Fin d"
    unfolding d_def by (simp add: double_small)
  have lt: "js_lt (Fin d) (Fin 0) = (d < 0)"
    by (auto simp: js_lt_def)
  have "\<bar>d + 360\<bar> < 2 ^ 53" using d by simp
  then have a: "js_add (Fin d) (Fin 360) = Fin (d + 360)"
    by (simp add: double_small)
  show ?thesis
    unfolding k m lt a using d by auto
qed

text \<open>
  With finite values kept exact, the hue that \<open>rgbToOklch\<close> returns for arguments
  other than \<open>NaN\<close> lies in \<open>[0, 360)\<close>: the angle of \<open>Math.atan2\<close> is above
  \<open>-\<pi>\<close>, so a negative hue is above \<open>-180\<close> and stays below 360 when 360 is added.
  The bound holds over the reals only; the program adds in binary64 and breaks it, as the
  next subsection shows.
\<close>

lemma rgbToOklch_hue_exact:
  assumes "\<not> isNaN r" and "\<not> isNaN g" and "\<not> isNaN b"
  shows "\<exists>h. snd (snd (rgbToOklch (Some r) (Some g) (Some b))) = Fin h \<and> 0 \<le> h \<and> h < 360"
proof -
  from sRGBtoLinear_unit [OF js_div_255_not_NaN [OF assms(1)]] obtain rl where
    rl: "sRGBtoLinear (js_div (to_num (Some r)) (Fin 255)) = Fin rl" "0 \<le> rl" "rl \<le> 1"
    by auto
  from sRGBtoLinear_unit [OF js_div_255_not_NaN [OF assms(2)]] obtain gl where
    gl: "sRGBtoLinear (js_div (to_num (Some g)) (Fin 255)) = Fin gl" "0 \<le> gl" "gl \<le> 1"
    by auto
  from sRGBtoLinear_unit [OF js_div_255_not_NaN [OF assms(3)]] obtain bl where
    bl: "sRGBtoLinear (js_div (to_num (Some b)) (Fin 255)) = Fin bl" "0 \<le> bl" "bl \<le> 1"
    by auto
  let ?L = "0.4121656120 * rl + 0.5362752080 * gl + 0.0514575653 * bl"
  let ?M = "0.2118561070 * rl + 0.6807189584 * gl + 0.1074065790 * bl"
  let ?S = "0.0883097947 * rl + 0.2818474174 * gl + 0.6302613616 * bl"
  have ab: "\<bar>rl\<bar> \<le> 2" "\<bar>gl\<bar> \<le> 2" "\<bar>bl\<bar> \<le> 2"
    using rl gl bl by simp_all
  have lmsL: "js_add (js_add (js_mul (Fin 0.4121656120) (Fin rl)) (js_mul (Fin 0.5362752080) (Fin gl)))
                (js_mul (Fin 0.0514575653) (Fin bl)) = Fin ?L"
    by (rule comb_add_add [OF ab]) simp_all
  have lmsM: "js_add (js_add (js_mul (Fin 0.2118561070) (Fin rl)) (js_mul (Fin 0.6807189584) (Fin gl)))
                (js_mul (Fin 0.1074065790) (Fin bl)) = Fin ?M"
    by (rule comb_add_add [OF ab]) simp_all
  have lmsS: "js_add (js_add (js_mul (Fin 0.0883097947) (Fin rl)) (js_mul (Fin 0.2818474174) (Fin gl)))
                (js_mul (Fin 0.6302613616) (Fin bl)) = Fin ?S"
    by (rule comb_add_add [OF ab]) simp_all
  have bL: "0 \<le> ?L" "?L \<le> 8" using rl gl bl by simp_all
  have bM: "0 \<le> ?M" "?M \<le> 8" using rl gl bl by simp_all
  have bS: "0 \<le> ?S" "?S \<le> 8" using rl gl bl by simp_all
  have cb: "\<bar>root 3 ?L\<bar> \<le> 2" "\<bar>root 3 ?M\<bar> \<le> 2" "\<bar>root 3 ?S\<bar> \<le> 2"
    using cbrt_small [OF bL] cbrt_small [OF bM] cbrt_small [OF bS] by simp_all
  let ?A = "1.9779984951 * root 3 ?L - 2.4285922050 * root 3 ?M + 0.4505937099 * root 3 ?S"
  let ?B = "0.0259040371 * root 3 ?L + 0.7827717662 * root 3 ?M - 0.8086757660 * root 3 ?S"
  have labA: "js_add (js_sub (js_mul (Fin 1.9779984951) (Fin (root 3 ?L)))
                         (js_mul (Fin 2.4285922050) (Fin (root 3 ?M))))
                 (js_mul (Fin 0.4505937099) (Fin (root 3 ?S))) = Fin ?A"
    by (rule comb_sub_add [OF cb]) simp_all
  have labB: "js_sub (js_add (js_mul (Fin 0.0259040371) (Fin (root 3 ?L)))
                         (js_mul (Fin 0.7827717662) (Fin (root 3 ?M))))
                 (js_mul (Fin 0.8086757660) (Fin (root 3 ?S))) = Fin ?B"
    by (rule comb_add_sub [OF cb]) simp_all
  have E: "snd (snd (rgbToOklch (Some r) (Some g) (Some b))) =
        (if js_lt (js_mul (Fin (atan2 ?B ?A)) (js_div (Fin 180) math_PI)) (Fin 0)
         then js_add (js_mul (Fin (atan2 ?B ?A)) (js_div (Fin 180) math_PI)) (Fin 360)
         else js_mul (Fin (atan2 ?B ?A)) (js_div (Fin 180) math_PI))"
    unfolding rgbToOklch_def Let_def snd_conv
    by (simp only: rl(1) gl(1) bl(1) lmsL lmsM lmsS math_cbrt.simps labA labB math_atan2.simps)
  from atan2_range [of ?B ?A] have "- pi < atan2 ?B ?A" "atan2 ?B ?A \<le> pi"
    by simp_all
  from hue_normalised [OF this] show ?thesis
    unfolding E .
qed

subsection \<open>The hue in binary64\<close>

lemma floor_log2:
  assumes "2 powi k \<le> x" and "x < 2 powi (k + 1)"
  shows "\<lfloor>log 2 x\<rfloor> = k"
proof -
  have "(0::real) < 2 powi k" by simp
  with assms(1) have pos: "0 < x" by linarith
  have a: "2 powr (of_int m) = (2::real) powi m" for m
    by (rule powr_real_of_int') simp_all
  have "2 powr (of_int k) \<le> x" unfolding a by (rule assms(1))
  then have lo: "of_int k \<le> log 2 x"
    using pos by (subst le_log_iff) simp_all
  have "x < 2 powr (of_int (k + 1))" unfolding a by (rule assms(2))
  then have hi: "log 2 x < of_int (k + 1)"
    using pos by (subst log_less_iff) simp_all
  show ?thesis
  proof (rule floor_unique)
    show "of_int k \<le> log 2 x" by (rule lo)
    show "log 2 x < of_int k + 1" using hi by simp
  qed
qed

lemma binary64_below_360:
  assumes "- (1 / 2 ^ 45) < h" and "h < 0"
  shows "binary64 (h + 360) = 360"
proof -
  define x where "x = h + 360"
  have x: "360 - 1 / 2 ^ 45 < x" "x < 360" using assms by (simp_all add: x_def)
  have "(2::real) powi 8 \<le> x" "x < 2 powi (8 + 1)"
    using x by simp_all
  then have e: "\<lfloor>log 2 x\<rfloor> = 8" by (rule floor_log2)
  have ax: "\<bar>x\<bar> = x" using x by simp
  have u: "(2::real) powi (8 - 52) = 1 / 2 ^ 44"
    by (simp add: power_int_minus divide_simps)
  define n where "n = x * 2 ^ 44"
  have n: "360 * 2 ^ 44 - 1 / 2 < n" "n < 360 * 2 ^ 44"
    using x by (simp_all add: n_def field_simps)
  have f: "\<lfloor>n\<rfloor> = 360 * 2 ^ 44 - 1"
    using n by (intro floor_unique) simp_all
  have r: "\<not> (n - of_int \<lfloor>n\<rfloor> < 1 / 2)" "n - of_int \<lfloor>n\<rfloor> \<noteq> 1 / 2"
    unfolding f using n by simp_all
  have "binary64 x = (of_int \<lfloor>n\<rfloor> + 1) * (1 / 2 ^ 44)"
    unfolding binary64_def Let_def ax e
    using r by (simp add: u n_def)
  also have "\<dots> = 360" unfolding f by simp
  finally show ?thesis unfolding x_def .
qed

lemma binary64_h0:
  "binary64 (- (2023062787608545 / 2 ^ 96)) = - (2023062787608545 / 2 ^ 96)"
proof -
  let ?x = "2023062787608545 / 2 ^ 96 :: real"
  have "(2::real) powi (- 46) \<le> ?x" "?x < 2 powi (- 46 + 1)"
    by (simp_all add: power_int_minus divide_simps)
  then have e: "\<lfloor>log 2 ?x\<rfloor> = - 46" by (rule floor_log2)
  have ax: "\<bar>- ?x\<bar> = ?x" by simp
  have u: "(2::real) powi (- 46 - 52) = 1 / 2 ^ 98"
    by (simp add: power_int_minus divide_simps)
  have n: "- ?x / (1 / 2 ^ 98) = of_int (- 8092251150434180)"
    by simp
  show ?thesis
    unfolding binary64_def Let_def ax e
    by (simp add: u n)
qed

text \<open>
  Claim C6. The hue that \<open>rgbToOklch\<close> returns is to satisfy \<open>0 \<le> h < 360\<close>, and the
  comment of line 127 says that adding 360 ensures it. When line 125 leaves a negative
  hue above \<open>- (1 / 2 ^ 45)\<close>, the sum of line 127 lies less than half a step of the
  binary64 grid below 360 and rounds to 360 itself: the hue returned is exactly 360 and
  not below it. Such a hue is a binary64 number, for instance
  \<open>- (2023062787608545 / 2 ^ 96)\<close>, about \<open>-2.55e-14\<close>. The steps before line 126 use
  \<open>Math.pow\<close>, \<open>Math.cbrt\<close> and \<open>Math.atan2\<close>, which the implementation approximates,
  and are not evaluated here.
\<close>

theorem hue_wrap_binary64_reaches_360:
  assumes "- (1 / 2 ^ 45) < h" and "h < 0"
  shows "hue_wrap_binary64 (Fin h) = Fin 360
         \<and> \<not> js_lt (hue_wrap_binary64 (Fin h)) (Fin 360)"
proof -
  have "\<bar>h + 360\<bar> < 2 ^ 53" using assms by simp
  then have a: "js_add (Fin h) (Fin 360) = Fin (h + 360)"
    by (simp add: double_small)
  have l: "js_lt (Fin h) (Fin 0)" using assms by (simp add: js_lt_def)
  have "hue_wrap_binary64 (Fin h) = Fin 360"
    unfolding hue_wrap_binary64_def using l
    by (simp only: if_True a round_number.simps binary64_below_360 [OF assms])
  then show ?thesis by (simp add: js_lt_def)
qed

theorem hue_wrap_binary64_reaches_360_witness:
  "- (1 / 2 ^ 45) < - (2023062787608545 / 2 ^ 96 :: real)
   \<and> - (2023062787608545 / 2 ^ 96 :: real) < 0
   \<and> binary64 (- (2023062787608545 / 2 ^ 96)) = - (2023062787608545 / 2 ^ 96)
   \<and> hue_wrap_binary64 (Fin (- (2023062787608545 / 2 ^ 96))) = Fin 360
   \<and> \<not> js_lt (hue_wrap_binary64 (Fin (- (2023062787608545 / 2 ^ 96)))) (Fin 360)"
proof -
  have h1: "- (1 / 2 ^ 45) < - (2023062787608545 / 2 ^ 96 :: real)" by simp
  have h2: "- (2023062787608545 / 2 ^ 96 :: real) < 0" by simp
  note t = hue_wrap_binary64_reaches_360 [OF h1 h2]
  show ?thesis
    by (intro conjI h1 h2 binary64_h0 conjunct1 [OF t] conjunct2 [OF t])
qed

end
